theory Spec2Isabelle
  imports Main "HOL-Library.Word" "HOL-Library.AList"
begin

unbundle bit_operations_syntax

section \<open>The Milvus storage backend of DocumentArray\<close>

text \<open>
  A shallow embedding of \<^verbatim>\<open>docarray/array/storage/milvus/backend.py\<close>: the helper
  \<^verbatim>\<open>always_true_expr\<close>, the dataclass \<^verbatim>\<open>MilvusConfig\<close> and the methods of
  \<^verbatim>\<open>BackendMixin\<close>. Python objects that the code copies or mutates (configuration
  dictionaries and \<^verbatim>\<open>MilvusConfig\<close> instances) live in an explicit object store; the
  calls into the pymilvus client are recorded in a trace. A leading underscore of a Python
  name is dropped, since an Isabelle name cannot start with one.
\<close>

subsection \<open>Python values and the object store\<close>

type_synonym addr = nat

text \<open>
  The values a configuration holds: \<^verbatim>\<open>None\<close>, integers, strings, and references to
  mutable objects of the store. Python does not enforce the annotations of a dataclass, so
  every field of a configuration is such a value.
\<close>

datatype pyval = VNone | VInt int | VStr string | VRef addr

type_synonym pydict = "(string \<times> pyval) list"

text \<open>The dataclass \<^verbatim>\<open>MilvusConfig\<close> (lines 27 to 39).\<close>

record MilvusConfig =
  n_dim :: pyval
  collection_name :: pyval
  host :: pyval
  port :: pyval
  distance :: pyval
  index_type :: pyval
  index_config :: pyval
  collection_config :: pyval
  serialize_config :: pyval

datatype pyobj = Dict pydict | Config MilvusConfig

type_synonym heap = "pyobj list"

text \<open>
  The exceptions of the model. \<open>ClientError\<close> stands for whatever the pymilvus client or
  the base class raises; \<open>DanglingRef\<close> is not a Python exception: it marks a reference
  that points outside the store, which no Python program can hold.
\<close>

datatype error =
    ValueError string
  | TypeError
  | KeyError string
  | AttributeError
  | SerializationError
  | ClientError
  | DanglingRef

definition lookup :: "heap \<Rightarrow> addr \<Rightarrow> pyobj option" where
  "lookup h a = (if a < length h then Some (h ! a) else None)"

text \<open>Python's truth test \<^verbatim>\<open>not config\<close>: a dataclass instance is always true.\<close>

definition truthy :: "heap \<Rightarrow> pyval \<Rightarrow> bool" where
  "truthy h v =
     (case v of
        VNone \<Rightarrow> False
      | VInt i \<Rightarrow> i \<noteq> 0
      | VStr s \<Rightarrow> s \<noteq> []
      | VRef a \<Rightarrow> (case lookup h a of Some (Dict kvs) \<Rightarrow> kvs \<noteq> [] | _ \<Rightarrow> True))"

text \<open>
  Unpacking \<^verbatim>\<open>**x\<close> into keyword arguments: \<^verbatim>\<open>x\<close> has to be a mapping.
\<close>

definition kwargs_of :: "heap \<Rightarrow> pyval \<Rightarrow> error + pydict" where
  "kwargs_of h v =
     (case v of
        VRef a \<Rightarrow>
          (case lookup h a of
             Some (Dict kvs) \<Rightarrow> Inr kvs
           | Some (Config c) \<Rightarrow> Inl TypeError
           | None \<Rightarrow> Inl DanglingRef)
      | _ \<Rightarrow> Inl TypeError)"

text \<open>Reading \<^verbatim>\<open>self._config\<close> as a \<^verbatim>\<open>MilvusConfig\<close>.\<close>

definition get_config :: "heap \<Rightarrow> addr \<Rightarrow> error + MilvusConfig" where
  "get_config h a =
     (case lookup h a of
        Some (Config c) \<Rightarrow> Inr c
      | Some (Dict kvs) \<Rightarrow> Inl AttributeError
      | None \<Rightarrow> Inl DanglingRef)"

text \<open>String concatenation \<^verbatim>\<open>v + s\<close> with a string on the right.\<close>

definition add_str :: "pyval \<Rightarrow> string \<Rightarrow> error + string" where
  "add_str v s = (case v of VStr t \<Rightarrow> Inr (t @ s) | _ \<Rightarrow> Inl TypeError)"

subsection \<open>\<^verbatim>\<open>copy.deepcopy\<close>\<close>

text \<open>
  \<^verbatim>\<open>copy.deepcopy\<close> returns immutable values as they are and builds, for a mutable
  object, a copy of everything reachable from it, keeping the sharing inside the copy. The
  model gives every object at address \<open>a\<close> a twin at address \<open>a + length h\<close> whose
  references point to twins. Twins of objects that the argument does not reach are
  referenced from nowhere.
\<close>

fun reloc :: "nat \<Rightarrow> pyval \<Rightarrow> pyval" where
  "reloc n (VRef a) = VRef (a + n)"
| "reloc n VNone = VNone"
| "reloc n (VInt i) = VInt i"
| "reloc n (VStr s) = VStr s"

definition reloc_config :: "nat \<Rightarrow> MilvusConfig \<Rightarrow> MilvusConfig" where
  "reloc_config n c =
     \<lparr>n_dim = reloc n (n_dim c),
      collection_name = reloc n (collection_name c),
      host = reloc n (host c),
      port = reloc n (port c),
      distance = reloc n (distance c),
      index_type = reloc n (index_type c),
      index_config = reloc n (index_config c),
      collection_config = reloc n (collection_config c),
      serialize_config = reloc n (serialize_config c)\<rparr>"

fun reloc_obj :: "nat \<Rightarrow> pyobj \<Rightarrow> pyobj" where
  "reloc_obj n (Dict kvs) = Dict (map (\<lambda>kv. (fst kv, reloc n (snd kv))) kvs)"
| "reloc_obj n (Config c) = Config (reloc_config n c)"

definition deepcopy :: "heap \<Rightarrow> pyval \<Rightarrow> heap \<times> pyval" where
  "deepcopy h v =
     (case v of
        VRef a \<Rightarrow> (h @ map (reloc_obj (length h)) h, VRef (a + length h))
      | _ \<Rightarrow> (h, v))"

text \<open>
  The addresses an object refers to, and the objects that can be reached from an address
  by following references: what a mutation through that address can touch.
\<close>

fun refs_val :: "pyval \<Rightarrow> addr set" where
  "refs_val (VRef a) = {a}"
| "refs_val VNone = {}"
| "refs_val (VInt i) = {}"
| "refs_val (VStr s) = {}"

definition refs_config :: "MilvusConfig \<Rightarrow> addr set" where
  "refs_config c =
     refs_val (n_dim c) \<union> refs_val (collection_name c) \<union> refs_val (host c)
     \<union> refs_val (port c) \<union> refs_val (distance c) \<union> refs_val (index_type c)
     \<union> refs_val (index_config c) \<union> refs_val (collection_config c)
     \<union> refs_val (serialize_config c)"

fun refs_obj :: "pyobj \<Rightarrow> addr set" where
  "refs_obj (Dict kvs) = \<Union> (set (map (\<lambda>kv. refs_val (snd kv)) kvs))"
| "refs_obj (Config c) = refs_config c"

inductive reaches :: "heap \<Rightarrow> addr \<Rightarrow> addr \<Rightarrow> bool" for h :: heap and a :: addr where
  here: "reaches h a a"
| step: "reaches h a b \<Longrightarrow> lookup h b = Some ob \<Longrightarrow> c \<in> refs_obj ob \<Longrightarrow> reaches h a c"

text \<open>
  A store is closed above \<open>n\<close> when the objects at the addresses from \<open>n\<close> on refer
  to such addresses only.
\<close>

definition closed_above :: "nat \<Rightarrow> heap \<Rightarrow> bool" where
  "closed_above n h \<longleftrightarrow> (\<forall>i. n \<le> i \<longrightarrow> i < length h \<longrightarrow> (\<forall>b \<in> refs_obj (h ! i). n \<le> b))"

subsection \<open>\<^verbatim>\<open>uuid.uuid4().hex\<close>\<close>

text \<open>
  \<^verbatim>\<open>uuid4\<close> takes 16 random bytes and overwrites the variant and version bits;
  \<^verbatim>\<open>hex\<close> prints the 128-bit number as 32 lower-case hexadecimal digits. The random
  bytes are a parameter of the model.
\<close>

definition uuid4 :: "128 word \<Rightarrow> 128 word" where
  "uuid4 b =
     (((b AND NOT (push_bit 48 0xc000)) OR push_bit 48 0x8000)
        AND NOT (push_bit 64 0xf000)) OR push_bit 76 4"

definition hexdigit :: "nat \<Rightarrow> char" where
  "hexdigit d = ''0123456789abcdef'' ! d"

definition uuid_hex :: "128 word \<Rightarrow> string" where
  "uuid_hex w = map (\<lambda>i. hexdigit (unat (drop_bit (4 * i) w AND 15))) (rev [0..<32])"

subsection \<open>\<^verbatim>\<open>always_true_expr\<close>\<close>

definition always_true_expr :: "string \<Rightarrow> string" where
  \<open>always_true_expr primary_key =
     ''('' @ primary_key @ '' in ["1"]) or ('' @ primary_key @ '' not in ["1"])''\<close>

text \<open>
  The fragment of Milvus' boolean expressions that \<^verbatim>\<open>always_true_expr\<close> produces:
  membership of a VARCHAR field in a list of string literals, its negation, and
  disjunction. \<open>render\<close> is the concrete syntax, \<open>eval\<close> the value on an entry, given as
  the function from field names to the strings the entry holds.
\<close>

datatype expr =
    In string "string list"
  | NotIn string "string list"
  | Or expr expr

fun render_lits :: "string list \<Rightarrow> string" where
  \<open>render_lits [] = []\<close>
| \<open>render_lits [l] = ''"'' @ l @ ''"''\<close>
| \<open>render_lits (l # ls) = ''"'' @ l @ ''", '' @ render_lits ls\<close>

fun render :: "expr \<Rightarrow> string" where
  "render (In f ls) = f @ '' in ['' @ render_lits ls @ '']''"
| "render (NotIn f ls) = f @ '' not in ['' @ render_lits ls @ '']''"
| "render (Or a b) = ''('' @ render a @ '') or ('' @ render b @ '')''"

fun eval :: "(string \<Rightarrow> string) \<Rightarrow> expr \<Rightarrow> bool" where
  "eval entry (In f ls) = (entry f \<in> set ls)"
| "eval entry (NotIn f ls) = (entry f \<notin> set ls)"
| "eval entry (Or a b) = (eval entry a \<or> eval entry b)"

definition always_true_ast :: "string \<Rightarrow> expr" where
  "always_true_ast primary_key = Or (In primary_key [''1'']) (NotIn primary_key [''1''])"

subsection \<open>The pymilvus client\<close>

text \<open>
  \<^verbatim>\<open>FieldSchema\<close>, \<^verbatim>\<open>CollectionSchema\<close> and \<^verbatim>\<open>Collection\<close> belong to pymilvus. The
  first two are modelled as the descriptors the code builds; an argument the code does not
  pass is \<open>None\<close> (\<^verbatim>\<open>is_primary\<close> defaults to \<^verbatim>\<open>False\<close>). A \<^verbatim>\<open>Collection\<close> is the
  record of the arguments of its creation call.
\<close>

datatype DataType = VARCHAR | FLOAT_VECTOR

record FieldSchema =
  name :: string
  dtype :: DataType
  max_length :: "int option"
  dim :: "pyval option"
  is_primary :: bool

record CollectionSchema =
  fields_s :: "FieldSchema list"
  description :: string

record Collection =
  name_c :: pyval
  schema_c :: CollectionSchema
  using_c :: string
  kwargs_c :: pydict

text \<open>
  The calls that leave the module: \<^verbatim>\<open>connections.connect(alias, host, port)\<close>, the
  creation of a collection, and \<^verbatim>\<open>super()._init_storage(_docs, config, **kwargs)\<close> of
  the base class, whose code is not part of this file. The type \<open>'d\<close> is the type of
  \<^verbatim>\<open>_docs\<close>, which the module only passes on.
\<close>

datatype 'd client_call =
    Connect string pyval pyval
  | CreateCollection Collection
  | BaseInitStorage 'd addr pydict

text \<open>
  The state: the object store and the trace of the calls made so far. The environment
  gives the random bytes that \<^verbatim>\<open>uuid4\<close> draws and tells, from the trace so far, whether a
  call returns or raises.
\<close>

record 'd world =
  objs :: heap
  calls :: "'d client_call list"

record 'd env =
  urandom :: "128 word"
  accepts :: "'d client_call list \<Rightarrow> 'd client_call \<Rightarrow> bool"

definition call_client :: "'d env \<Rightarrow> 'd client_call \<Rightarrow> 'd world \<Rightarrow> (error + unit) \<times> 'd world" where
  "call_client env c w =
     (if accepts env (calls w) c then Inr () else Inl ClientError,
      w\<lparr>calls := calls w @ [c]\<rparr>)"

text \<open>The attributes that \<^verbatim>\<open>_init_storage\<close> sets on \<^verbatim>\<open>self\<close>.\<close>

record adapter =
  self_config :: addr
  self_connection_alias :: string
  self_collection :: "Collection option"
  self_offset2id_collection :: "Collection option"

subsection \<open>Building a \<^verbatim>\<open>MilvusConfig\<close>\<close>

definition field_names :: "string list" where
  "field_names =
     [''n_dim'', ''collection_name'', ''host'', ''port'', ''distance'', ''index_type'',
      ''index_config'', ''collection_config'', ''serialize_config'']"

definition get_or :: "pydict \<Rightarrow> string \<Rightarrow> pyval \<Rightarrow> pyval" where
  "get_or kw k d = (case map_of kw k of None \<Rightarrow> d | Some v \<Rightarrow> v)"

text \<open>\<^verbatim>\<open>field(default_factory=dict)\<close>: a new empty dictionary for every instance.\<close>

definition new_dict :: "heap \<Rightarrow> heap \<times> pyval" where
  "new_dict h = (h @ [Dict []], VRef (length h))"

text \<open>
  The fields of a new instance, from the keyword arguments \<open>kw\<close>: the defaults of lines
  30 to 35 where a keyword is absent. The required \<^verbatim>\<open>n_dim\<close> and the two fields with a
  default factory are given by the constructor below.
\<close>

definition with_defaults :: "pydict \<Rightarrow> pyval \<Rightarrow> pyval \<Rightarrow> pyval \<Rightarrow> MilvusConfig" where
  "with_defaults kw nd cc sc =
     \<lparr>n_dim = nd,
      collection_name = get_or kw ''collection_name'' VNone,
      host = get_or kw ''host'' (VStr ''localhost''),
      port = get_or kw ''port'' (VInt 19530),
      distance = get_or kw ''distance'' (VStr ''IP''),
      index_type = get_or kw ''index_type'' (VStr ''HNSW''),
      index_config = get_or kw ''index_config'' VNone,
      collection_config = cc,
      serialize_config = sc\<rparr>"

text \<open>
  The constructor that \<^verbatim>\<open>@dataclass\<close> generates from lines 27 to 39, called with
  keyword arguments: an unknown keyword or a missing \<^verbatim>\<open>n_dim\<close> is a \<^verbatim>\<open>TypeError\<close>, every
  other field has its default.
\<close>

definition MilvusConfig_init :: "heap \<Rightarrow> pydict \<Rightarrow> (error + addr) \<times> heap" where
  "MilvusConfig_init h kw =
     (if \<not> list_all (\<lambda>kv. List.member field_names (fst kv)) kw then (Inl TypeError, h)
      else
        (case map_of kw ''n_dim'' of
           None \<Rightarrow> (Inl TypeError, h)
         | Some nd \<Rightarrow>
             (case (case map_of kw ''collection_config'' of
                      Some v \<Rightarrow> (h, v) | None \<Rightarrow> new_dict h) of
                (h1, cc) \<Rightarrow>
                  (case (case map_of kw ''serialize_config'' of
                           Some v \<Rightarrow> (h1, v) | None \<Rightarrow> new_dict h1) of
                     (h2, sc) \<Rightarrow>
                       (Inr (length h2), h2 @ [Config (with_defaults kw nd cc sc)])))))"

text \<open>
  Modelled from the spec: \<^verbatim>\<open>dataclass_from_dict\<close> of \<^verbatim>\<open>docarray.helper\<close>, which this
  file imports and whose code is not at hand. The specification says that a mapping is
  deserialized into the canonical record, unspecified fields being filled with the defaults:
  the model calls the constructor with the entries of the mapping as keyword arguments.
\<close>

definition dataclass_from_dict :: "heap \<Rightarrow> pydict \<Rightarrow> (error + addr) \<times> heap" where
  "dataclass_from_dict h dikt = MilvusConfig_init h dikt"

subsection \<open>\<^verbatim>\<open>BackendMixin._init_storage\<close>\<close>

definition empty_config_msg :: string where
  "empty_config_msg = ''Empty config is not allowed for Elastic storage''"

text \<open>
  Lines 52 and 53: a dictionary becomes a \<^verbatim>\<open>MilvusConfig\<close>, any other true value is
  kept. A true value that is neither (a number, a string) has no attribute
  \<^verbatim>\<open>collection_name\<close>, which line 55 reads next.
\<close>

definition to_dataclass :: "heap \<Rightarrow> pyval \<Rightarrow> (error + addr) \<times> heap" where
  "to_dataclass h config =
     (case config of
        VRef a \<Rightarrow>
          (case lookup h a of
             Some (Dict kvs) \<Rightarrow> dataclass_from_dict h kvs
           | Some (Config c) \<Rightarrow> (Inr a, h)
           | None \<Rightarrow> (Inl DanglingRef, h))
      | _ \<Rightarrow> (Inl AttributeError, h))"

text \<open>
  Lines 49 to 58, the resolution of the configuration: the deep copy, the test for an
  empty configuration, the conversion of a dictionary, and the generated collection name.
  The result is the address that \<^verbatim>\<open>self._config\<close> holds.
\<close>

definition resolve_config :: "128 word \<Rightarrow> heap \<Rightarrow> pyval \<Rightarrow> (error + addr) \<times> heap" where
  "resolve_config rnd h config =
     (case deepcopy h config of
        (h1, config1) \<Rightarrow>
          if \<not> truthy h1 config1 then (Inl (ValueError empty_config_msg), h1)
          else
            (case to_dataclass h1 config1 of
               (Inl e, h2) \<Rightarrow> (Inl e, h2)
             | (Inr c, h2) \<Rightarrow>
                 (case get_config h2 c of
                    Inl e \<Rightarrow> (Inl e, h2)
                  | Inr cfg \<Rightarrow>
                      if collection_name cfg = VNone
                      then (Inr c,
                            h2[c := Config (cfg\<lparr>collection_name :=
                                     VStr (''docarray__'' @ uuid_hex (uuid4 rnd))\<rparr>)])
                      else (Inr c, h2))))"

subsection \<open>Provisioning the two collections\<close>

text \<open>
  The schema of the primary collection (lines 72 to 85), for the dimension \<open>n\<close> read
  from the configuration, and the schema of the offset2id collection (lines 95 to 111).
\<close>

definition primary_schema :: "pyval \<Rightarrow> CollectionSchema" where
  "primary_schema n =
     (let document_id =
            \<lparr>name = ''document_id'', dtype = VARCHAR, max_length = Some 1024,
             dim = None, is_primary = True\<rparr>;
          embedding =
            \<lparr>name = ''embedding'', dtype = FLOAT_VECTOR, max_length = None,
             dim = Some n, is_primary = False\<rparr>;
          serialized =
            \<lparr>name = ''serialized'', dtype = VARCHAR, max_length = Some 65535,
             dim = None, is_primary = False\<rparr>
      in \<lparr>fields_s = [document_id, embedding, serialized],
          description = ''DocumentArray collection''\<rparr>)"

definition offset2id_schema :: CollectionSchema where
  "offset2id_schema =
     (let document_id =
            \<lparr>name = ''document_id'', dtype = VARCHAR, max_length = Some 1024,
             dim = None, is_primary = False\<rparr>;
          offset =
            \<lparr>name = ''offset'', dtype = VARCHAR, max_length = Some 1024,
             dim = None, is_primary = True\<rparr>;
          dummy_vector =
            \<lparr>name = ''dummy_vector'', dtype = FLOAT_VECTOR, max_length = None,
             dim = Some (VInt 1), is_primary = False\<rparr>
      in \<lparr>fields_s = [offset, document_id, dummy_vector],
          description = ''offset2id for DocumentArray''\<rparr>)"

text \<open>
  The creation calls (lines 86 to 91 and 113 to 118). A keyword that is given both by name
  and through \<^verbatim>\<open>**collection_config\<close> is a \<^verbatim>\<open>TypeError\<close> of the call. Line 117 is a
  comment: the second call gets no further keyword.
\<close>

definition create_or_reuse_collection ::
  "'d env \<Rightarrow> adapter \<Rightarrow> 'd world \<Rightarrow> (error + Collection) \<times> 'd world" where
  "create_or_reuse_collection env self w =
     (case get_config (objs w) (self_config self) of
        Inl e \<Rightarrow> (Inl e, w)
      | Inr cfg \<Rightarrow>
          (case kwargs_of (objs w) (collection_config cfg) of
             Inl e \<Rightarrow> (Inl e, w)
           | Inr kw \<Rightarrow>
               if list_ex (\<lambda>kv. List.member [''name'', ''schema'', ''using''] (fst kv)) kw
               then (Inl TypeError, w)
               else
                 (let c = \<lparr>name_c = collection_name cfg,
                           schema_c = primary_schema (n_dim cfg),
                           using_c = self_connection_alias self, kwargs_c = kw\<rparr>
                  in case call_client env (CreateCollection c) w of
                       (Inl e, w') \<Rightarrow> (Inl e, w')
                     | (Inr u, w') \<Rightarrow> (Inr c, w'))))"

definition create_or_reuse_offset2id_collection ::
  "'d env \<Rightarrow> adapter \<Rightarrow> 'd world \<Rightarrow> (error + Collection) \<times> 'd world" where
  "create_or_reuse_offset2id_collection env self w =
     (case get_config (objs w) (self_config self) of
        Inl e \<Rightarrow> (Inl e, w)
      | Inr cfg \<Rightarrow>
          (case add_str (collection_name cfg) ''_offset2id'' of
             Inl e \<Rightarrow> (Inl e, w)
           | Inr nm \<Rightarrow>
               (let c = \<lparr>name_c = VStr nm, schema_c = offset2id_schema,
                         using_c = self_connection_alias self, kwargs_c = []\<rparr>
                in case call_client env (CreateCollection c) w of
                     (Inl e, w') \<Rightarrow> (Inl e, w')
                   | (Inr u, w') \<Rightarrow> (Inr c, w'))))"

text \<open>
  \<^verbatim>\<open>_init_storage\<close> as a whole (lines 43 to 68). An exception ends the construction of
  the adapter: the result is then the error, and the state holds what was done before.
\<close>

definition init_storage ::
  "'d env \<Rightarrow> 'd world \<Rightarrow> 'd \<Rightarrow> pyval \<Rightarrow> pydict \<Rightarrow> (error + adapter) \<times> 'd world" where
  "init_storage env w docs config kwargs =
     (case resolve_config (urandom env) (objs w) config of
        (Inl e, h) \<Rightarrow> (Inl e, w\<lparr>objs := h\<rparr>)
      | (Inr c, h) \<Rightarrow>
          (let w1 = w\<lparr>objs := h\<rparr>;
               self1 = \<lparr>self_config = c,
                        self_connection_alias = ''docarray_default_connection'',
                        self_collection = None,
                        self_offset2id_collection = None\<rparr>
           in
             (case get_config h c of
                Inl e \<Rightarrow> (Inl e, w1)
              | Inr cfg \<Rightarrow>
                  (case call_client env
                          (Connect (self_connection_alias self1) (host cfg) (port cfg)) w1 of
                     (Inl e, w2) \<Rightarrow> (Inl e, w2)
                   | (Inr u, w2) \<Rightarrow>
                       (case create_or_reuse_collection env self1 w2 of
                          (Inl e, w3) \<Rightarrow> (Inl e, w3)
                        | (Inr coll, w3) \<Rightarrow>
                            (let self2 = self1\<lparr>self_collection := Some coll\<rparr> in
                               (case create_or_reuse_offset2id_collection env self2 w3 of
                                  (Inl e, w4) \<Rightarrow> (Inl e, w4)
                                | (Inr off, w4) \<Rightarrow>
                                    (let self3 = self2\<lparr>self_offset2id_collection := Some off\<rparr>
                                     in case call_client env (BaseInitStorage docs c kwargs) w4 of
                                          (Inl e, w5) \<Rightarrow> (Inl e, w5)
                                        | (Inr u, w5) \<Rightarrow> (Inr self3, w5)))))))))"

subsection \<open>\<^verbatim>\<open>BackendMixin._ensure_unique_config\<close>\<close>

text \<open>The dictionary operations \<^verbatim>\<open>k in d\<close>, \<^verbatim>\<open>d[k]\<close> and \<^verbatim>\<open>d[k] = v\<close>.\<close>

definition contains :: "heap \<Rightarrow> addr \<Rightarrow> string \<Rightarrow> error + bool" where
  "contains h a k =
     (case lookup h a of
        Some (Dict kvs) \<Rightarrow> Inr (map_of kvs k \<noteq> None)
      | Some (Config c) \<Rightarrow> Inl TypeError
      | None \<Rightarrow> Inl DanglingRef)"

definition getitem :: "heap \<Rightarrow> addr \<Rightarrow> string \<Rightarrow> error + pyval" where
  "getitem h a k =
     (case lookup h a of
        Some (Dict kvs) \<Rightarrow> (case map_of kvs k of None \<Rightarrow> Inl (KeyError k) | Some v \<Rightarrow> Inr v)
      | Some (Config c) \<Rightarrow> Inl TypeError
      | None \<Rightarrow> Inl DanglingRef)"

definition setitem :: "heap \<Rightarrow> addr \<Rightarrow> string \<Rightarrow> pyval \<Rightarrow> error + heap" where
  "setitem h a k v =
     (case lookup h a of
        Some (Dict kvs) \<Rightarrow> Inr (h[a := Dict (AList.update k v kvs)])
      | Some (Config c) \<Rightarrow> Inl TypeError
      | None \<Rightarrow> Inl DanglingRef)"

text \<open>
  The three configurations are dictionaries of the store, given by their addresses; the
  joined one is changed in place and returned.
\<close>

definition ensure_unique_config ::
  "heap \<Rightarrow> addr \<Rightarrow> addr \<Rightarrow> addr \<Rightarrow> string \<Rightarrow> (error + addr) \<times> heap" where
  "ensure_unique_config h config_root config_subindex config_joined subindex_name =
     (case contains h config_subindex ''collection_name'' of
        Inl e \<Rightarrow> (Inl e, h)
      | Inr True \<Rightarrow> (Inr config_joined, h)
      | Inr False \<Rightarrow>
          (case getitem h config_joined ''collection_name'' of
             Inl e \<Rightarrow> (Inl e, h)
           | Inr v \<Rightarrow>
               (case add_str v ''_subindex_'' of
                  Inl e \<Rightarrow> (Inl e, h)
                | Inr s \<Rightarrow>
                    (case setitem h config_joined ''collection_name''
                            (VStr (s @ subindex_name)) of
                       Inl e \<Rightarrow> (Inl e, h)
                     | Inr h' \<Rightarrow> (Inr config_joined, h')))))"

subsection \<open>The payload codec\<close>

text \<open>
  A document has an identifier and an embedding; whatever else it holds is the extension
  of the record. Embeddings are only moved around, so their type is a parameter. The
  method \<^verbatim>\<open>to_base64\<close> belongs to the class of documents, not to this file: it is a
  parameter \<open>to_base64\<close> of the codec, which may raise.
\<close>

record 'e Document =
  id_doc :: string
  embedding :: 'e

type_synonym 'e payload = "string list \<times> 'e list \<times> string list"

text \<open>The expression \<^verbatim>\<open>doc.to_base64(**self._config.serialize_config)\<close>.\<close>

definition serialize ::
  "(('e, 'z) Document_scheme \<Rightarrow> pydict \<Rightarrow> error + string) \<Rightarrow> heap \<Rightarrow> adapter \<Rightarrow>
   ('e, 'z) Document_scheme \<Rightarrow> error + string" where
  "serialize to_base64 h self doc =
     (case get_config h (self_config self) of
        Inl e \<Rightarrow> Inl e
      | Inr cfg \<Rightarrow>
          (case kwargs_of h (serialize_config cfg) of
             Inl e \<Rightarrow> Inl e
           | Inr kw \<Rightarrow> to_base64 doc kw))"

definition doc_to_milvus_payload ::
  "(('e, 'z) Document_scheme \<Rightarrow> pydict \<Rightarrow> error + string) \<Rightarrow> heap \<Rightarrow> adapter \<Rightarrow>
   ('e, 'z) Document_scheme \<Rightarrow> error + 'e payload" where
  "doc_to_milvus_payload to_base64 h self doc =
     (case serialize to_base64 h self doc of
        Inl e \<Rightarrow> Inl e
      | Inr s \<Rightarrow> Inr ([id_doc doc], [embedding doc], [s]))"

text \<open>
  Modelled from the spec: the column projection \<^verbatim>\<open>docs[:, 'id']\<close> of the class of
  document arrays, whose code is not in this file. The specification asks of the ordered
  collection a projection by field name: the model is the list of the field's values, one
  per document, in the order of the documents.
\<close>

definition project :: "('doc \<Rightarrow> 'a) \<Rightarrow> 'doc list \<Rightarrow> 'a list" where
  "project field docs = map field docs"

text \<open>The comprehension of line 144: the first exception ends it.\<close>

fun serialize_all ::
  "(('e, 'z) Document_scheme \<Rightarrow> pydict \<Rightarrow> error + string) \<Rightarrow> heap \<Rightarrow> adapter \<Rightarrow>
   ('e, 'z) Document_scheme list \<Rightarrow> error + string list" where
  "serialize_all to_base64 h self [] = Inr []"
| "serialize_all to_base64 h self (doc # docs) =
     (case serialize to_base64 h self doc of
        Inl e \<Rightarrow> Inl e
      | Inr s \<Rightarrow>
          (case serialize_all to_base64 h self docs of
             Inl e \<Rightarrow> Inl e
           | Inr ss \<Rightarrow> Inr (s # ss)))"

definition docs_to_milvus_payload ::
  "(('e, 'z) Document_scheme \<Rightarrow> pydict \<Rightarrow> error + string) \<Rightarrow> heap \<Rightarrow> adapter \<Rightarrow>
   ('e, 'z) Document_scheme list \<Rightarrow> error + 'e payload" where
  "docs_to_milvus_payload to_base64 h self docs =
     (case serialize_all to_base64 h self docs of
        Inl e \<Rightarrow> Inl e
      | Inr ss \<Rightarrow> Inr (project id_doc docs, project embedding docs, ss))"

subsection \<open>An example state\<close>

text \<open>
  A store with a \<^verbatim>\<open>MilvusConfig\<close> at address 0, its two option dictionaries at 1 and 2,
  the dictionary \<^verbatim>\<open>{'n_dim': 128}\<close> at 3, an empty dictionary at 4 and the dictionary
  \<^verbatim>\<open>{'n_dim': 128, 'collection_name': 'mine'}\<close> at 5; an adapter whose configuration is
  the object at 0; a client that accepts every call.
\<close>

definition example_config :: MilvusConfig where
  "example_config =
     \<lparr>n_dim = VInt 128, collection_name = VStr ''docs'', host = VStr ''localhost'',
      port = VInt 19530, distance = VStr ''IP'', index_type = VStr ''HNSW'',
      index_config = VNone, collection_config = VRef 1, serialize_config = VRef 2\<rparr>"

definition example_heap :: heap where
  "example_heap =
     [Config example_config,
      Dict [(''consistency_level'', VStr ''Strong'')],
      Dict [(''compress'', VStr ''gzip'')],
      Dict [(''n_dim'', VInt 128)],
      Dict [],
      Dict [(''n_dim'', VInt 128), (''collection_name'', VStr ''mine'')]]"

definition example_self :: adapter where
  "example_self =
     \<lparr>self_config = 0, self_connection_alias = ''docarray_default_connection'',
      self_collection = None, self_offset2id_collection = None\<rparr>"

definition example_env :: "unit env" where
  "example_env = \<lparr>urandom = 0, accepts = (\<lambda>trace c. True)\<rparr>"

definition example_world :: "unit world" where
  "example_world = \<lparr>objs = example_heap, calls = []\<rparr>"

text \<open>
  Two documents, a serializer that succeeds on every document, and one that fails on
  every document.
\<close>

definition example_docs :: "nat Document list" where
  "example_docs = [\<lparr>id_doc = ''a'', embedding = 1\<rparr>, \<lparr>id_doc = ''b'', embedding = 2\<rparr>]"

definition example_to_base64 :: "nat Document \<Rightarrow> pydict \<Rightarrow> error + string" where
  "example_to_base64 doc kw = Inr (id_doc doc @ ''=='')"

definition example_failing_to_base64 :: "nat Document \<Rightarrow> pydict \<Rightarrow> error + string" where
  "example_failing_to_base64 doc kw = Inl SerializationError"

text \<open>A serializer whose result depends on the option \<^verbatim>\<open>compress\<close>.\<close>

definition example_options_to_base64 :: "nat Document \<Rightarrow> pydict \<Rightarrow> error + string" where
  "example_options_to_base64 doc kw =
     (case map_of kw ''compress'' of
        Some (VStr c) \<Rightarrow> Inr (id_doc doc @ ''.'' @ c)
      | _ \<Rightarrow> Inr (id_doc doc))"

text \<open>
  A store with a configuration as the defaults make it: its two option dictionaries, at 1
  and 2, are empty.
\<close>

definition example_default_world :: "unit world" where
  "example_default_world =
     \<lparr>objs = [Config (example_config\<lparr>collection_config := VRef 1, serialize_config := VRef 2\<rparr>),
              Dict [], Dict []],
      calls = []\<rparr>"

text \<open>
  Three dictionaries for \<^verbatim>\<open>_ensure_unique_config\<close>: a root configuration named
  \<^verbatim>\<open>R\<close> at address 0, a subindex configuration without a collection name at 1, and a
  joined configuration named \<^verbatim>\<open>J\<close> at 2.
\<close>

definition example_subindex_heap :: heap where
  "example_subindex_heap =
     [Dict [(''collection_name'', VStr ''R'')],
      Dict [],
      Dict [(''collection_name'', VStr ''J'')]]"

section \<open>Properties\<close>

subsection \<open>The always-true filter\<close>

text \<open>
  Claim C10. For every primary-key name \<open>p\<close>, \<^verbatim>\<open>always_true_expr\<close> returns exactly the
  string \<^verbatim>\<open>(p in ["1"]) or (p not in ["1"])\<close> with \<open>p\<close> substituted. That string is the
  concrete syntax of the disjunction of a membership test and its negation, which
  evaluates to true on every entry, whatever value the entry holds in the field \<open>p\<close>.
\<close>

theorem always_true_expr_tautology:
  \<open>always_true_expr p = ''('' @ p @ '' in ["1"]) or ('' @ p @ '' not in ["1"])''
   \<and> always_true_expr p = render (always_true_ast p)
   \<and> eval entry (always_true_ast p)\<close>
  by (simp add: always_true_expr_def always_true_ast_def)

theorem always_true_expr_tautology_witness:
  \<open>always_true_expr ''document_id'' = ''(document_id in ["1"]) or (document_id not in ["1"])''
   \<and> render (always_true_ast ''document_id'') = always_true_expr ''document_id''
   \<and> eval (\<lambda>f. if f = ''document_id'' then ''7'' else []) (always_true_ast ''document_id'')
   \<and> eval (\<lambda>f. if f = ''document_id'' then ''1'' else []) (always_true_ast ''document_id'')\<close>
  using always_true_expr_tautology [of "''document_id''" "\<lambda>f. if f = ''document_id'' then ''7'' else []"]
    always_true_expr_tautology [of "''document_id''" "\<lambda>f. if f = ''document_id'' then ''1'' else []"]
  by simp

subsection \<open>The payload codec\<close>

lemma serialize_all_Inr:
  "serialize_all tb h self docs = Inr ss \<Longrightarrow>
   length ss = length docs \<and> (\<forall>i<length docs. serialize tb h self (docs ! i) = Inr (ss ! i))"
proof (induction docs arbitrary: ss)
  case Nil
  then show ?case by simp
next
  case (Cons d ds)
  from Cons.prems obtain s ss' where s: "serialize tb h self d = Inr s"
    and ss': "serialize_all tb h self ds = Inr ss'" and eq: "ss = s # ss'"
    by (auto split: sum.splits)
  from Cons.IH [OF ss'] have len: "length ss' = length ds"
    and nth: "\<forall>i<length ds. serialize tb h self (ds ! i) = Inr (ss' ! i)" by simp_all
  show ?case
  proof (intro conjI allI impI)
    show "length ss = length (d # ds)" using len eq by simp
  next
    fix i assume "i < length (d # ds)"
    then show "serialize tb h self ((d # ds) ! i) = Inr (ss ! i)"
      using s nth eq by (cases i) simp_all
  qed
qed

lemma serialize_all_total:
  "list_all (\<lambda>d. \<exists>s. serialize tb h self d = Inr s) docs \<Longrightarrow>
   \<exists>ss. serialize_all tb h self docs = Inr ss"
  by (induction docs) auto

lemma example_serialize:
  "serialize example_to_base64 example_heap example_self doc = Inr (id_doc doc @ ''=='')"
  by (simp add: serialize_def get_config_def kwargs_of_def lookup_def example_heap_def
      example_self_def example_config_def example_to_base64_def)

lemma serialize_options:
  assumes "lookup h (self_config self) = Some (Config cfg)"
    and "serialize_config cfg = VRef a" and "lookup h a = Some (Dict kw)"
  shows "serialize tb h self d = tb d kw"
  using assms by (simp add: serialize_def get_config_def kwargs_of_def)

lemma serialize_Inr:
  assumes "serialize tb h self d = Inr s"
  shows "\<exists>cfg a kw. lookup h (self_config self) = Some (Config cfg)
           \<and> serialize_config cfg = VRef a \<and> lookup h a = Some (Dict kw)
           \<and> tb d kw = Inr s"
proof -
  from assms obtain cfg where cfg: "lookup h (self_config self) = Some (Config cfg)"
    by (auto simp: serialize_def get_config_def split: option.splits pyobj.splits)
  with assms obtain kw where kw: "kwargs_of h (serialize_config cfg) = Inr kw"
    and s: "tb d kw = Inr s"
    by (auto simp: serialize_def get_config_def split: sum.splits)
  from kw obtain a where "serialize_config cfg = VRef a" "lookup h a = Some (Dict kw)"
    by (auto simp: kwargs_of_def split: pyval.splits option.splits pyobj.splits)
  with cfg s show ?thesis by blast
qed

text \<open>
  Claim C2. For every sequence of N documents, a payload that batch encode returns has
  three columns (identifiers, embeddings, serialized strings), each of length N, and the
  i-th element of each column comes from the i-th document: its identifier, its embedding,
  and the result of its \<^verbatim>\<open>to_base64\<close> called with the entries of the dictionary
  \<^verbatim>\<open>serialize_config\<close> of the configuration as keyword arguments. Batch encode returns
  whenever that dictionary exists and every document can be serialized under it.
\<close>

theorem docs_to_milvus_payload_aligned:
  "(lookup h (self_config self) = Some (Config cfg) \<and> serialize_config cfg = VRef a
      \<and> lookup h a = Some (Dict kw)
      \<and> list_all (\<lambda>d. \<exists>s. to_base64 d kw = Inr s) docs \<longrightarrow>
      (\<exists>p. docs_to_milvus_payload to_base64 h self docs = Inr p))
   \<and> (\<forall>ids embs sers.
        docs_to_milvus_payload to_base64 h self docs = Inr (ids, embs, sers) \<longrightarrow>
        length ids = length docs \<and> length embs = length docs \<and> length sers = length docs
        \<and> (\<forall>i<length docs.
              ids ! i = id_doc (docs ! i)
              \<and> embs ! i = embedding (docs ! i)
              \<and> (\<exists>cfg a kw. lookup h (self_config self) = Some (Config cfg)
                    \<and> serialize_config cfg = VRef a \<and> lookup h a = Some (Dict kw)
                    \<and> to_base64 (docs ! i) kw = Inr (sers ! i))))"
proof (intro conjI allI impI)
  assume a: "lookup h (self_config self) = Some (Config cfg) \<and> serialize_config cfg = VRef a
      \<and> lookup h a = Some (Dict kw)
      \<and> list_all (\<lambda>d. \<exists>s. to_base64 d kw = Inr s) docs"
  then have "serialize to_base64 h self d = to_base64 d kw" for d
    by (simp add: serialize_options)
  with a have "list_all (\<lambda>d. \<exists>s. serialize to_base64 h self d = Inr s) docs" by simp
  then obtain ss where "serialize_all to_base64 h self docs = Inr ss"
    using serialize_all_total by blast
  then show "\<exists>p. docs_to_milvus_payload to_base64 h self docs = Inr p"
    by (simp add: docs_to_milvus_payload_def)
next
  fix ids embs sers
  assume r: "docs_to_milvus_payload to_base64 h self docs = Inr (ids, embs, sers)"
  then have ss: "serialize_all to_base64 h self docs = Inr sers"
    and ids: "ids = map id_doc docs" and embs: "embs = map embedding docs"
    by (auto simp: docs_to_milvus_payload_def project_def split: sum.splits)
  note al = serialize_all_Inr [OF ss]
  show "length ids = length docs" using ids by simp
  show "length embs = length docs" using embs by simp
  show "length sers = length docs" using al by simp
  fix i assume i: "i < length docs"
  show "ids ! i = id_doc (docs ! i)" using ids i by simp
  show "embs ! i = embedding (docs ! i)" using embs i by simp
  from al i have "serialize to_base64 h self (docs ! i) = Inr (sers ! i)" by simp
  then show "\<exists>cfg a kw. lookup h (self_config self) = Some (Config cfg)
                    \<and> serialize_config cfg = VRef a \<and> lookup h a = Some (Dict kw)
                    \<and> to_base64 (docs ! i) kw = Inr (sers ! i)"
    by (rule serialize_Inr)
qed

theorem docs_to_milvus_payload_aligned_witness:
  "lookup example_heap (self_config example_self) = Some (Config example_config)
   \<and> serialize_config example_config = VRef 2
   \<and> lookup example_heap 2 = Some (Dict [(''compress'', VStr ''gzip'')])
   \<and> list_all (\<lambda>d. \<exists>s. example_options_to_base64 d [(''compress'', VStr ''gzip'')] = Inr s)
        example_docs
   \<and> docs_to_milvus_payload example_options_to_base64 example_heap example_self example_docs =
       Inr ([''a'', ''b''], [1, 2], [''a.gzip'', ''b.gzip''])
   \<and> length [''a.gzip'', ''b.gzip''] = length example_docs
   \<and> example_options_to_base64 (example_docs ! 1) [(''compress'', VStr ''gzip'')] =
       Inr ([''a.gzip'', ''b.gzip''] ! 1)
   \<and> example_options_to_base64 (example_docs ! 1) [] \<noteq> Inr ([''a.gzip'', ''b.gzip''] ! 1)"
proof -
  let ?kw = "[(''compress'', VStr ''gzip'')]"
  have c: "lookup example_heap (self_config example_self) = Some (Config example_config)"
    and sc: "serialize_config example_config = VRef 2"
    and d: "lookup example_heap 2 = Some (Dict ?kw)"
    by (simp_all add: lookup_def example_heap_def example_self_def example_config_def)
  have ok: "list_all (\<lambda>d. \<exists>s. example_options_to_base64 d ?kw = Inr s) example_docs"
    by (simp add: example_options_to_base64_def example_docs_def)
  have ser: "serialize example_options_to_base64 example_heap example_self doc =
      example_options_to_base64 doc ?kw" for doc
    using c sc d by (rule serialize_options)
  have run: "docs_to_milvus_payload example_options_to_base64 example_heap example_self
      example_docs = Inr ([''a'', ''b''], [1, 2], [''a.gzip'', ''b.gzip''])"
    by (simp add: docs_to_milvus_payload_def project_def ser example_options_to_base64_def
        example_docs_def)
  have i1: "1 < length example_docs" by (simp add: example_docs_def)
  note t = docs_to_milvus_payload_aligned [of example_heap example_self example_config 2 ?kw
      example_options_to_base64 example_docs]
  note u = t [THEN conjunct2, rule_format, OF run]
  from u have len: "length [''a.gzip'', ''b.gzip''] = length example_docs"
    by (elim conjE)
  from u have "\<exists>cfg a kw. lookup example_heap (self_config example_self) = Some (Config cfg)
      \<and> serialize_config cfg = VRef a \<and> lookup example_heap a = Some (Dict kw)
      \<and> example_options_to_base64 (example_docs ! 1) kw = Inr ([''a.gzip'', ''b.gzip''] ! 1)"
    using i1 by (elim conjE) (drule spec [of _ 1], drule mp, assumption, elim conjE)
  then obtain cfg' a' kw1 where
    c': "lookup example_heap (self_config example_self) = Some (Config cfg')"
    and sc': "serialize_config cfg' = VRef a'" and d': "lookup example_heap a' = Some (Dict kw1)"
    and f': "example_options_to_base64 (example_docs ! 1) kw1 = Inr ([''a.gzip'', ''b.gzip''] ! 1)"
    by (elim exE conjE)
  from c c' have "cfg' = example_config" by simp
  with sc sc' have "a' = 2" by simp
  with d d' have "kw1 = ?kw" by simp
  with f' have f0: "example_options_to_base64 (example_docs ! 1) ?kw =
      Inr ([''a.gzip'', ''b.gzip''] ! 1)"
    by simp
  have "lookup example_heap 2 = Some (Dict kw1)" using d' \<open>a' = 2\<close> by simp
  note f = f0
  have g: "example_options_to_base64 (example_docs ! 1) [] \<noteq> Inr ([''a.gzip'', ''b.gzip''] ! 1)"
    by (simp add: example_options_to_base64_def example_docs_def)
  from c sc d ok run len f g show ?thesis by simp
qed

text \<open>
  Claim C5. For every document, single-document encode gives the same three columns as
  batch encode of the one-element sequence holding that document, under the same
  serialization options; when the serialization raises, both raise the same exception.
\<close>

theorem single_equals_batch_of_one:
  "doc_to_milvus_payload to_base64 h self doc = docs_to_milvus_payload to_base64 h self [doc]"
  by (simp add: doc_to_milvus_payload_def docs_to_milvus_payload_def project_def
      split: sum.splits)

theorem single_equals_batch_of_one_witness:
  "doc_to_milvus_payload example_to_base64 example_heap example_self
     \<lparr>id_doc = ''a'', embedding = 1\<rparr> = Inr ([''a''], [1], [''a==''])
   \<and> docs_to_milvus_payload example_to_base64 example_heap example_self
       [\<lparr>id_doc = ''a'', embedding = 1\<rparr>] = Inr ([''a''], [1], [''a==''])
   \<and> doc_to_milvus_payload example_failing_to_base64 example_heap example_self
       \<lparr>id_doc = ''a'', embedding = 1\<rparr> = Inl SerializationError
   \<and> docs_to_milvus_payload example_failing_to_base64 example_heap example_self
       [\<lparr>id_doc = ''a'', embedding = 1\<rparr>] = Inl SerializationError"
proof -
  have a: "doc_to_milvus_payload example_to_base64 example_heap example_self
     \<lparr>id_doc = ''a'', embedding = 1\<rparr> = Inr ([''a''], [1], [''a==''])"
    by (simp add: doc_to_milvus_payload_def example_serialize)
  have b: "doc_to_milvus_payload example_failing_to_base64 example_heap example_self
       \<lparr>id_doc = ''a'', embedding = 1\<rparr> = Inl SerializationError"
    by (simp add: doc_to_milvus_payload_def serialize_def get_config_def kwargs_of_def
        lookup_def example_heap_def example_self_def example_config_def
        example_failing_to_base64_def)
  from a b show ?thesis
    using single_equals_batch_of_one
      [of example_to_base64 example_heap example_self "\<lparr>id_doc = ''a'', embedding = 1\<rparr>"]
      single_equals_batch_of_one
      [of example_failing_to_base64 example_heap example_self
        "\<lparr>id_doc = ''a'', embedding = 1\<rparr>"]
    by simp
qed

subsection \<open>The deep copy and the empty configuration\<close>

lemma lookup_twin:
  "lookup (h @ map (reloc_obj (length h)) h) (a + length h) =
   map_option (reloc_obj (length h)) (lookup h a)"
  by (simp add: lookup_def nth_append)

lemma truthy_deepcopy:
  "deepcopy h config = (h1, config1) \<Longrightarrow> truthy h1 config1 = truthy h config"
  by (cases config)
     (auto simp: deepcopy_def truthy_def lookup_twin split: option.splits pyobj.splits)

lemma resolve_config_falsy:
  "\<not> truthy h config \<Longrightarrow>
   resolve_config rnd h config = (Inl (ValueError empty_config_msg), fst (deepcopy h config))"
  by (cases "deepcopy h config") (simp add: resolve_config_def truthy_deepcopy)

lemma to_dataclass_no_ValueError:
  "to_dataclass h config = (Inl e, h') \<Longrightarrow> e \<noteq> ValueError m"
  by (auto simp: to_dataclass_def dataclass_from_dict_def MilvusConfig_init_def new_dict_def
      split: pyval.splits option.splits pyobj.splits if_splits prod.splits)

lemma get_config_no_ValueError: "get_config h a = Inl e \<Longrightarrow> e \<noteq> ValueError m"
  by (auto simp: get_config_def split: option.splits pyobj.splits)

lemma resolve_config_truthy:
  assumes "truthy h config"
  shows "fst (resolve_config rnd h config) \<noteq> Inl (ValueError m)"
proof (cases "deepcopy h config")
  case (Pair h1 config1)
  then have t: "truthy h1 config1" using assms by (simp add: truthy_deepcopy)
  show ?thesis
  proof (cases "to_dataclass h1 config1")
    case (Pair r h2)
    show ?thesis
    proof (cases r)
      case (Inl e)
      then show ?thesis
        using \<open>deepcopy h config = (h1, config1)\<close> t Pair
          to_dataclass_no_ValueError [of h1 config1 e h2 m]
        by (simp add: resolve_config_def)
    next
      case (Inr c)
      then show ?thesis
        using \<open>deepcopy h config = (h1, config1)\<close> t Pair
          get_config_no_ValueError [of h2 c _ m]
        by (cases "get_config h2 c") (auto simp: resolve_config_def)
    qed
  qed
qed

lemma call_client_no_ValueError: "call_client env c w = (Inl e, w') \<Longrightarrow> e \<noteq> ValueError m"
  by (auto simp: call_client_def split: if_splits)

lemma kwargs_of_no_ValueError: "kwargs_of h v = Inl e \<Longrightarrow> e \<noteq> ValueError m"
  by (auto simp: kwargs_of_def split: pyval.splits option.splits pyobj.splits)

lemma create_or_reuse_collection_no_ValueError:
  "create_or_reuse_collection env self w = (Inl e, w') \<Longrightarrow> e \<noteq> ValueError m"
  by (auto simp: create_or_reuse_collection_def Let_def
      dest: get_config_no_ValueError kwargs_of_no_ValueError call_client_no_ValueError
      split: sum.splits if_splits prod.splits)

lemma create_or_reuse_offset2id_collection_no_ValueError:
  "create_or_reuse_offset2id_collection env self w = (Inl e, w') \<Longrightarrow> e \<noteq> ValueError m"
  by (auto simp: create_or_reuse_offset2id_collection_def Let_def add_str_def
      dest: get_config_no_ValueError call_client_no_ValueError
      split: sum.splits if_splits prod.splits pyval.splits)

lemma init_storage_after_resolve_Inl:
  "resolve_config (urandom env) (objs w) config = (Inl e, h) \<Longrightarrow>
   init_storage env w docs config kwargs = (Inl e, w\<lparr>objs := h\<rparr>)"
  by (simp add: init_storage_def)

lemma init_storage_ValueError_from_resolve:
  assumes "fst (init_storage env w docs config kwargs) = Inl (ValueError m)"
  shows "fst (resolve_config (urandom env) (objs w) config) = Inl (ValueError m)"
proof (cases "resolve_config (urandom env) (objs w) config")
  case (Pair r h)
  show ?thesis
  proof (cases r)
    case (Inl e)
    then show ?thesis using Pair assms by (simp add: init_storage_def)
  next
    case (Inr c)
    have False
      using assms Pair Inr
      by (auto simp: init_storage_def Let_def
          dest: get_config_no_ValueError call_client_no_ValueError
            create_or_reuse_collection_no_ValueError
            create_or_reuse_offset2id_collection_no_ValueError
          split: sum.splits prod.splits)
    then show ?thesis ..
  qed
qed

text \<open>
  Claim C6. When the configuration is \<^verbatim>\<open>None\<close> or an empty dictionary,
  \<^verbatim>\<open>_init_storage\<close> raises the \<^verbatim>\<open>ValueError\<close> of line 51 and has made no call to the
  client: no connection, no collection. No adapter results. When the configuration is a
  non-empty dictionary or a \<^verbatim>\<open>MilvusConfig\<close>, no \<^verbatim>\<open>ValueError\<close> is raised.
\<close>

theorem init_storage_empty_config:
  "((config = VNone \<or> (\<exists>a. config = VRef a \<and> lookup (objs w) a = Some (Dict []))) \<longrightarrow>
      (\<exists>w'. init_storage env w docs config kwargs = (Inl (ValueError empty_config_msg), w')
            \<and> calls w' = calls w))
   \<and> ((\<exists>a. config = VRef a \<and>
           ((\<exists>kv kvs. lookup (objs w) a = Some (Dict (kv # kvs)))
            \<or> (\<exists>c. lookup (objs w) a = Some (Config c)))) \<longrightarrow>
        (\<forall>m. fst (init_storage env w docs config kwargs) \<noteq> Inl (ValueError m)))"
proof (intro conjI impI)
  assume "config = VNone \<or> (\<exists>a. config = VRef a \<and> lookup (objs w) a = Some (Dict []))"
  then have "\<not> truthy (objs w) config"
    by (auto simp: truthy_def)
  then have "resolve_config (urandom env) (objs w) config =
      (Inl (ValueError empty_config_msg), fst (deepcopy (objs w) config))"
    by (rule resolve_config_falsy)
  then have "init_storage env w docs config kwargs =
      (Inl (ValueError empty_config_msg), w\<lparr>objs := fst (deepcopy (objs w) config)\<rparr>)"
    by (rule init_storage_after_resolve_Inl)
  then show "\<exists>w'. init_storage env w docs config kwargs = (Inl (ValueError empty_config_msg), w')
      \<and> calls w' = calls w"
    by simp
next
  assume "\<exists>a. config = VRef a \<and>
           ((\<exists>kv kvs. lookup (objs w) a = Some (Dict (kv # kvs)))
            \<or> (\<exists>c. lookup (objs w) a = Some (Config c)))"
  then have t: "truthy (objs w) config"
    by (auto simp: truthy_def)
  show "\<forall>m. fst (init_storage env w docs config kwargs) \<noteq> Inl (ValueError m)"
  proof (intro allI notI)
    fix m assume "fst (init_storage env w docs config kwargs) = Inl (ValueError m)"
    then have "fst (resolve_config (urandom env) (objs w) config) = Inl (ValueError m)"
      by (rule init_storage_ValueError_from_resolve)
    then show False using resolve_config_truthy [OF t] by blast
  qed
qed

theorem init_storage_empty_config_witness:
  "lookup (objs example_world) 4 = Some (Dict [])
   \<and> (\<exists>w'. init_storage example_env example_world () (VRef 4) [] =
             (Inl (ValueError empty_config_msg), w') \<and> calls w' = calls example_world)
   \<and> (\<exists>w'. init_storage example_env example_world () VNone [] =
             (Inl (ValueError empty_config_msg), w') \<and> calls w' = calls example_world)
   \<and> lookup (objs example_world) 3 = Some (Dict [(''n_dim'', VInt 128)])
   \<and> fst (init_storage example_env example_world () (VRef 3) []) \<noteq>
       Inl (ValueError empty_config_msg)
   \<and> lookup (objs example_world) 0 = Some (Config example_config)
   \<and> fst (init_storage example_env example_world () (VRef 0) []) \<noteq>
       Inl (ValueError empty_config_msg)"
proof -
  have l4: "lookup (objs example_world) 4 = Some (Dict [])"
    and l3: "lookup (objs example_world) 3 = Some (Dict [(''n_dim'', VInt 128)])"
    and l0: "lookup (objs example_world) 0 = Some (Config example_config)"
    by (simp_all add: lookup_def example_world_def example_heap_def)
  note t = init_storage_empty_config [of _ example_world example_env "()" "[]"]
  from t [of "VRef 4"] l4
  have a: "\<exists>w'. init_storage example_env example_world () (VRef 4) [] =
             (Inl (ValueError empty_config_msg), w') \<and> calls w' = calls example_world"
    by blast
  from t [of VNone]
  have b: "\<exists>w'. init_storage example_env example_world () VNone [] =
             (Inl (ValueError empty_config_msg), w') \<and> calls w' = calls example_world"
    by blast
  from t [of "VRef 3"] l3
  have c: "fst (init_storage example_env example_world () (VRef 3) []) \<noteq>
       Inl (ValueError empty_config_msg)"
    by blast
  from t [of "VRef 0"] l0
  have d: "fst (init_storage example_env example_world () (VRef 0) []) \<noteq>
       Inl (ValueError empty_config_msg)"
    by blast
  from l4 a b l3 c l0 d show ?thesis by blast
qed

subsection \<open>The resolved configuration\<close>

lemma nibble_bound: "unat ((x :: 128 word) AND 15) < 16"
proof -
  have "unat (x AND 15) \<le> unat (15 :: 128 word)"
    by (rule word_and_le1 [THEN word_le_nat_alt [THEN iffD1]])
  then show ?thesis by simp
qed

lemma hexdigit_in: "d < 16 \<Longrightarrow> hexdigit d \<in> set ''0123456789abcdef''"
  unfolding hexdigit_def by (rule nth_mem) simp

lemma uuid_hex_shape: "length (uuid_hex w) = 32 \<and> set (uuid_hex w) \<subseteq> set ''0123456789abcdef''"
proof
  show "length (uuid_hex w) = 32" by (simp add: uuid_hex_def)
  show "set (uuid_hex w) \<subseteq> set ''0123456789abcdef''"
    unfolding uuid_hex_def using hexdigit_in [OF nibble_bound] by auto
qed

lemma reloc_eq_VNone: "reloc n v = VNone \<longleftrightarrow> v = VNone"
  by (cases v) simp_all

lemma deepcopy_ref:
  "deepcopy h (VRef a) = (h @ map (reloc_obj (length h)) h, VRef (a + length h))"
  by (simp add: deepcopy_def)

lemma uuid_hex_example: "uuid_hex (uuid4 0) = ''00000000000040008000000000000000''"
  by (simp add: uuid_hex_def uuid4_def hexdigit_def upt_rec drop_bit_eq_div)

lemma resolve_config_object:
  assumes "lookup h a = Some (Config c)"
  shows "resolve_config rnd h (VRef a) =
     (Inr (a + length h),
      if collection_name c = VNone
      then (h @ map (reloc_obj (length h)) h)
             [a + length h := Config ((reloc_config (length h) c)
                \<lparr>collection_name := VStr (''docarray__'' @ uuid_hex (uuid4 rnd))\<rparr>)]
      else h @ map (reloc_obj (length h)) h)"
proof -
  let ?H = "h @ map (reloc_obj (length h)) h"
  have l: "lookup ?H (a + length h) = Some (Config (reloc_config (length h) c))"
    using assms by (simp add: lookup_twin)
  have t: "truthy ?H (VRef (a + length h))" using l by (simp add: truthy_def)
  have d: "to_dataclass ?H (VRef (a + length h)) = (Inr (a + length h), ?H)"
    using l by (simp add: to_dataclass_def)
  have g: "get_config ?H (a + length h) = Inr (reloc_config (length h) c)"
    using l by (simp add: get_config_def)
  have n: "collection_name (reloc_config (length h) c) = VNone \<longleftrightarrow> collection_name c = VNone"
    by (simp add: reloc_config_def reloc_eq_VNone)
  show ?thesis
    by (simp add: resolve_config_def deepcopy_ref t d g n)
qed


lemma dataclass_from_dict_Inr:
  assumes "dataclass_from_dict h kw = (Inr c, h')"
  shows "\<exists>nd ext cc sc. map_of kw ''n_dim'' = Some nd \<and> c = length h + length ext
     \<and> h' = h @ ext @ [Config (with_defaults kw nd cc sc)]
     \<and> list_all (\<lambda>ob. ob = Dict []) ext
     \<and> (case map_of kw ''collection_config'' of Some v \<Rightarrow> cc = v
          | None \<Rightarrow> \<exists>b. cc = VRef b \<and> length h \<le> b)
     \<and> (case map_of kw ''serialize_config'' of Some v \<Rightarrow> sc = v
          | None \<Rightarrow> \<exists>b. sc = VRef b \<and> length h \<le> b)"
proof -
  from assms obtain nd where nd: "map_of kw ''n_dim'' = Some nd"
    and keys: "list_all (\<lambda>kv. List.member field_names (fst kv)) kw"
    by (auto simp: dataclass_from_dict_def MilvusConfig_init_def split: if_splits option.splits)
  show ?thesis
  proof (cases "map_of kw ''collection_config''")
    case None
    note cc = this
    show ?thesis
    proof (cases "map_of kw ''serialize_config''")
      case None
      with cc nd keys assms
      have "c = length h + length [Dict [], Dict []]"
        and "h' = h @ [Dict [], Dict []] @
          [Config (with_defaults kw nd (VRef (length h)) (VRef (Suc (length h))))]"
        by (auto simp: dataclass_from_dict_def MilvusConfig_init_def new_dict_def)
      with nd cc None show ?thesis by (intro exI conjI) (assumption | simp)+
    next
      case (Some v)
      with cc nd keys assms
      have "c = length h + length [Dict []]"
        and "h' = h @ [Dict []] @ [Config (with_defaults kw nd (VRef (length h)) v)]"
        by (auto simp: dataclass_from_dict_def MilvusConfig_init_def new_dict_def)
      with nd cc Some show ?thesis by (intro exI conjI) (assumption | simp)+
    qed
  next
    case (Some u)
    note cc = this
    show ?thesis
    proof (cases "map_of kw ''serialize_config''")
      case None
      with cc nd keys assms
      have "c = length h + length [Dict []]"
        and "h' = h @ [Dict []] @ [Config (with_defaults kw nd u (VRef (length h)))]"
        by (auto simp: dataclass_from_dict_def MilvusConfig_init_def new_dict_def)
      with nd cc None show ?thesis by (intro exI conjI) (assumption | simp)+
    next
      case (Some v)
      with cc nd keys assms
      have "c = length h + length ([] :: heap)"
        and "h' = h @ [] @ [Config (with_defaults kw nd u v)]"
        by (auto simp: dataclass_from_dict_def MilvusConfig_init_def new_dict_def)
      with nd cc Some show ?thesis by (intro exI conjI) (assumption | simp)+
    qed
  qed
qed


lemma map_of_reloc:
  "map_of (map (\<lambda>kv. (fst kv, f (snd kv))) kvs) k = map_option f (map_of kvs k)"
  by (induction kvs) auto

lemma lookup_last: "lookup (h @ [ob]) (length h) = Some ob"
  by (simp add: lookup_def)

lemma resolve_config_n_dim_only:
  assumes "lookup h a = Some (Dict [(''n_dim'', v)])"
  shows "resolve_config rnd h (VRef a) =
     (Inr (Suc (Suc (length h + length h))),
      h @ map (reloc_obj (length h)) h @
      [Dict [], Dict [],
       Config ((with_defaults [(''n_dim'', reloc (length h) v)] (reloc (length h) v)
                  (VRef (length h + length h)) (VRef (Suc (length h + length h))))
               \<lparr>collection_name := VStr (''docarray__'' @ uuid_hex (uuid4 rnd))\<rparr>)])"
proof -
  let ?n = "length h"
  let ?H = "h @ map (reloc_obj ?n) h"
  let ?kw = "[(''n_dim'', reloc ?n v)]"
  let ?cfg = "with_defaults ?kw (reloc ?n v) (VRef (?n + ?n)) (VRef (Suc (?n + ?n)))"
  have l: "lookup ?H (a + ?n) = Some (Dict ?kw)"
    using assms by (simp add: lookup_twin)
  have t: "truthy ?H (VRef (a + ?n))" using l by (simp add: truthy_def)
  have m: "MilvusConfig_init ?H ?kw =
      (Inr (Suc (Suc (?n + ?n))), ?H @ [Dict [], Dict [], Config ?cfg])"
    by (simp add: MilvusConfig_init_def field_names_def new_dict_def)
  have d: "to_dataclass ?H (VRef (a + ?n)) =
      (Inr (Suc (Suc (?n + ?n))), ?H @ [Dict [], Dict [], Config ?cfg])"
    using l m by (simp add: to_dataclass_def dataclass_from_dict_def)
  have "lookup ((?H @ [Dict [], Dict []]) @ [Config ?cfg]) (length (?H @ [Dict [], Dict []]))
      = Some (Config ?cfg)"
    by (rule lookup_last)
  then have g: "get_config (?H @ [Dict [], Dict [], Config ?cfg]) (Suc (Suc (?n + ?n))) = Inr ?cfg"
    by (simp add: get_config_def)
  have nm: "collection_name ?cfg = VNone"
    by (simp add: with_defaults_def get_or_def)
  have upd: "(?H @ [Dict [], Dict [], Config ?cfg])[Suc (Suc (?n + ?n)) := ob] =
      ?H @ [Dict [], Dict [], ob]" for ob
    by (simp add: list_update_append)
  show ?thesis
    by (simp add: resolve_config_def deepcopy_ref t d g nm upd del: append_assoc)
qed


lemma get_config_after_dataclass_from_dict:
  assumes "dataclass_from_dict h kw = (Inr c, h')"
  shows "\<exists>nd cc sc. map_of kw ''n_dim'' = Some nd
           \<and> get_config h' c = Inr (with_defaults kw nd cc sc)"
proof -
  from dataclass_from_dict_Inr [OF assms] obtain nd ext cc sc
    where nd: "map_of kw ''n_dim'' = Some nd" and c: "c = length h + length ext"
      and h': "h' = h @ ext @ [Config (with_defaults kw nd cc sc)]"
    by blast
  have "lookup ((h @ ext) @ [Config (with_defaults kw nd cc sc)]) (length (h @ ext)) =
      Some (Config (with_defaults kw nd cc sc))"
    by (rule lookup_last)
  then have "get_config h' c = Inr (with_defaults kw nd cc sc)"
    using c h' by (simp add: get_config_def)
  with nd show ?thesis by blast
qed

text \<open>
  Claim C4. For a dictionary that gives only \<^verbatim>\<open>n_dim\<close>, as \<^verbatim>\<open>{'n_dim': 128}\<close> does, the
  resolution returns a configuration with host \<^verbatim>\<open>localhost\<close>, port 19530, distance
  \<^verbatim>\<open>IP\<close>, index type \<^verbatim>\<open>HNSW\<close> and a collection name made of \<^verbatim>\<open>docarray__\<close> and the
  32 hexadecimal digits of a UUID drawn for this call.
\<close>

theorem resolve_config_defaults:
  assumes "lookup h a = Some (Dict [(''n_dim'', VInt d)])"
  shows "\<exists>c h' cfg tok.
     resolve_config rnd h (VRef a) = (Inr c, h') \<and> get_config h' c = Inr cfg
     \<and> n_dim cfg = VInt d
     \<and> host cfg = VStr ''localhost'' \<and> port cfg = VInt 19530
     \<and> distance cfg = VStr ''IP'' \<and> index_type cfg = VStr ''HNSW''
     \<and> collection_name cfg = VStr (''docarray__'' @ tok)
     \<and> tok = uuid_hex (uuid4 rnd)
     \<and> length tok = 32 \<and> set tok \<subseteq> set ''0123456789abcdef''"
proof -
  let ?n = "length h"
  let ?H = "h @ map (reloc_obj ?n) h"
  let ?cfg = "(with_defaults [(''n_dim'', VInt d)] (VInt d)
                  (VRef (?n + ?n)) (VRef (Suc (?n + ?n))))
               \<lparr>collection_name := VStr (''docarray__'' @ uuid_hex (uuid4 rnd))\<rparr>"
  let ?h' = "?H @ [Dict [], Dict [], Config ?cfg]"
  have r: "resolve_config rnd h (VRef a) = (Inr (Suc (Suc (?n + ?n))), ?h')"
    using resolve_config_n_dim_only [OF assms, of rnd] by simp
  have "lookup ((?H @ [Dict [], Dict []]) @ [Config ?cfg]) (length (?H @ [Dict [], Dict []]))
      = Some (Config ?cfg)"
    by (rule lookup_last)
  then have g: "get_config ?h' (Suc (Suc (?n + ?n))) = Inr ?cfg"
    by (simp add: get_config_def)
  have f: "n_dim ?cfg = VInt d" "host ?cfg = VStr ''localhost''" "port ?cfg = VInt 19530"
    "distance ?cfg = VStr ''IP''" "index_type ?cfg = VStr ''HNSW''"
    "collection_name ?cfg = VStr (''docarray__'' @ uuid_hex (uuid4 rnd))"
    by (simp_all add: with_defaults_def get_or_def)
  from r g f uuid_hex_shape [of "uuid4 rnd"] show ?thesis by blast
qed

theorem resolve_config_defaults_witness:
  "lookup example_heap 3 = Some (Dict [(''n_dim'', VInt 128)])
   \<and> (\<exists>c h' cfg.
         resolve_config 0 example_heap (VRef 3) = (Inr c, h') \<and> get_config h' c = Inr cfg
         \<and> n_dim cfg = VInt 128
         \<and> host cfg = VStr ''localhost'' \<and> port cfg = VInt 19530
         \<and> distance cfg = VStr ''IP'' \<and> index_type cfg = VStr ''HNSW''
         \<and> collection_name cfg = VStr ''docarray__00000000000040008000000000000000'')"
proof -
  have l: "lookup example_heap 3 = Some (Dict [(''n_dim'', VInt 128)])"
    by (simp add: lookup_def example_heap_def)
  from resolve_config_defaults [OF l, of 0] obtain c h' cfg where
    "resolve_config 0 example_heap (VRef 3) = (Inr c, h')" "get_config h' c = Inr cfg"
    "n_dim cfg = VInt 128" "host cfg = VStr ''localhost''" "port cfg = VInt 19530"
    "distance cfg = VStr ''IP''" "index_type cfg = VStr ''HNSW''"
    "collection_name cfg = VStr (''docarray__'' @ uuid_hex (uuid4 0))"
    by blast
  then have "\<exists>c h' cfg.
         resolve_config 0 example_heap (VRef 3) = (Inr c, h') \<and> get_config h' c = Inr cfg
         \<and> n_dim cfg = VInt 128
         \<and> host cfg = VStr ''localhost'' \<and> port cfg = VInt 19530
         \<and> distance cfg = VStr ''IP'' \<and> index_type cfg = VStr ''HNSW''
         \<and> collection_name cfg = VStr ''docarray__00000000000040008000000000000000''"
    by (simp add: uuid_hex_example)
  with l show ?thesis by blast
qed

text \<open>
  Claim C7. When the collection name of the input is set, the resolution keeps it: for a
  \<^verbatim>\<open>MilvusConfig\<close> whose collection name is not \<^verbatim>\<open>None\<close> the result is the copy as it
  is, nothing is written to it, and a string name is the same string in the copy; for a
  dictionary whose key \<^verbatim>\<open>collection_name\<close> holds a string, a resolution that returns
  gives a configuration with that string as its collection name.
\<close>

theorem resolve_config_keeps_collection_name:
  "(lookup h a = Some (Config c) \<and> collection_name c \<noteq> VNone \<longrightarrow>
      resolve_config rnd h (VRef a) = (Inr (a + length h), h @ map (reloc_obj (length h)) h)
      \<and> get_config (h @ map (reloc_obj (length h)) h) (a + length h) =
          Inr (reloc_config (length h) c)
      \<and> collection_name (reloc_config (length h) c) = reloc (length h) (collection_name c)
      \<and> (\<forall>s. collection_name c = VStr s \<longrightarrow>
            collection_name (reloc_config (length h) c) = VStr s))
   \<and> (lookup h a = Some (Dict kvs) \<and> map_of kvs ''collection_name'' = Some (VStr s)
        \<and> resolve_config rnd h (VRef a) = (Inr c', h') \<longrightarrow>
        (\<exists>cfg. get_config h' c' = Inr cfg \<and> collection_name cfg = VStr s))"
proof (intro conjI impI allI)
  assume a: "lookup h a = Some (Config c) \<and> collection_name c \<noteq> VNone"
  then show "resolve_config rnd h (VRef a) =
      (Inr (a + length h), h @ map (reloc_obj (length h)) h)"
    by (simp add: resolve_config_object)
  show "get_config (h @ map (reloc_obj (length h)) h) (a + length h) =
      Inr (reloc_config (length h) c)"
    using a by (simp add: get_config_def lookup_twin)
  show "collection_name (reloc_config (length h) c) = reloc (length h) (collection_name c)"
    by (simp add: reloc_config_def)
  fix s assume "collection_name c = VStr s"
  then show "collection_name (reloc_config (length h) c) = VStr s"
    by (simp add: reloc_config_def)
next
  let ?n = "length h"
  let ?H = "h @ map (reloc_obj ?n) h"
  let ?kw = "map (\<lambda>kv. (fst kv, reloc ?n (snd kv))) kvs"
  assume a: "lookup h a = Some (Dict kvs) \<and> map_of kvs ''collection_name'' = Some (VStr s)
        \<and> resolve_config rnd h (VRef a) = (Inr c', h')"
  then have l: "lookup ?H (a + ?n) = Some (Dict ?kw)"
    by (simp add: lookup_twin)
  have d: "to_dataclass ?H (VRef (a + ?n)) = dataclass_from_dict ?H ?kw"
    using l by (simp add: to_dataclass_def)
  have nm: "map_of ?kw ''collection_name'' = Some (VStr s)"
    using a by (simp add: map_of_reloc)
  from a have r: "resolve_config rnd h (VRef a) = (Inr c', h')" by simp
  obtain res h2 where dd: "dataclass_from_dict ?H ?kw = (res, h2)"
    by (cases "dataclass_from_dict ?H ?kw")
  from r d dd obtain c0 where c0: "res = Inr c0"
    by (cases res) (auto simp: resolve_config_def deepcopy_ref split: if_splits)
  from get_config_after_dataclass_from_dict [OF dd [unfolded c0]] obtain nd cc sc
    where g: "get_config h2 c0 = Inr (with_defaults ?kw nd cc sc)" by blast
  have n: "collection_name (with_defaults ?kw nd cc sc) = VStr s"
    using nm by (simp add: with_defaults_def get_or_def)
  from r d dd c0 g n have "c' = c0" "h' = h2"
    by (auto simp: resolve_config_def deepcopy_ref split: if_splits)
  with g n show "\<exists>cfg. get_config h' c' = Inr cfg \<and> collection_name cfg = VStr s"
    by blast
qed

theorem resolve_config_keeps_collection_name_witness:
  "lookup example_heap 0 = Some (Config example_config)
   \<and> collection_name example_config = VStr ''docs''
   \<and> resolve_config 0 example_heap (VRef 0) =
       (Inr (0 + length example_heap),
        example_heap @ map (reloc_obj (length example_heap)) example_heap)
   \<and> collection_name (reloc_config (length example_heap) example_config) = VStr ''docs''
   \<and> lookup example_heap 5 =
       Some (Dict [(''n_dim'', VInt 128), (''collection_name'', VStr ''mine'')])
   \<and> (\<exists>c' h' cfg. resolve_config 0 example_heap (VRef 5) = (Inr c', h')
         \<and> get_config h' c' = Inr cfg \<and> collection_name cfg = VStr ''mine'')"
proof -
  have l0: "lookup example_heap 0 = Some (Config example_config)"
    and l5: "lookup example_heap 5 =
       Some (Dict [(''n_dim'', VInt 128), (''collection_name'', VStr ''mine'')])"
    by (simp_all add: lookup_def example_heap_def)
  have n0: "collection_name example_config = VStr ''docs''"
    by (simp add: example_config_def)
  have m5: "map_of [(''n_dim'', VInt 128), (''collection_name'', VStr ''mine'')]
      ''collection_name'' = Some (VStr ''mine'')"
    by simp
  obtain c' h' where r5: "resolve_config 0 example_heap (VRef 5) = (Inr c', h')"
    by (simp add: resolve_config_def deepcopy_def truthy_def lookup_def to_dataclass_def
      dataclass_from_dict_def MilvusConfig_init_def field_names_def new_dict_def get_config_def
      with_defaults_def get_or_def example_heap_def nth_append)
  note t0 = resolve_config_keeps_collection_name
    [of example_heap 0 example_config 0 "[]" "''x''" 0 "[]"]
  note t5 = resolve_config_keeps_collection_name
    [of example_heap 5 example_config 0
      "[(''n_dim'', VInt 128), (''collection_name'', VStr ''mine'')]" "''mine''" c' h']
  from t0 l0 n0 have a: "resolve_config 0 example_heap (VRef 0) =
       (Inr (0 + length example_heap),
        example_heap @ map (reloc_obj (length example_heap)) example_heap)"
    and b: "collection_name (reloc_config (length example_heap) example_config) = VStr ''docs''"
    by simp_all
  from t5 l5 m5 r5
  have "\<exists>cfg. get_config h' c' = Inr cfg \<and> collection_name cfg = VStr ''mine''"
    by blast
  with r5 have c: "\<exists>c' h' cfg. resolve_config 0 example_heap (VRef 5) = (Inr c', h')
         \<and> get_config h' c' = Inr cfg \<and> collection_name cfg = VStr ''mine''"
    by blast
  from l0 n0 a b l5 c show ?thesis by blast
qed

subsection \<open>The deep copy as a frame\<close>

lemma reaches_above:
  assumes "reaches h c b" and "closed_above n h" and "n \<le> c"
  shows "n \<le> b"
  using assms
proof (induction rule: reaches.induct)
  case here
  then show ?case by simp
next
  case (step b ob d)
  then have "n \<le> b" by simp
  moreover from step.hyps have "b < length h" "ob = h ! b"
    by (auto simp: lookup_def split: if_splits)
  ultimately show ?case using step.prems(1) step.hyps(3)
    by (auto simp: closed_above_def)
qed

lemma refs_val_reloc: "b \<in> refs_val (reloc n v) \<Longrightarrow> n \<le> b"
  by (cases v) simp_all

lemma refs_config_reloc: "b \<in> refs_config (reloc_config n c) \<Longrightarrow> n \<le> b"
  by (auto simp: refs_config_def reloc_config_def dest: refs_val_reloc)

lemma refs_obj_reloc: "b \<in> refs_obj (reloc_obj n ob) \<Longrightarrow> n \<le> b"
  by (cases ob) (auto dest: refs_val_reloc refs_config_reloc)

lemma closed_above_deepcopy: "closed_above (length h) (h @ map (reloc_obj (length h)) h)"
  by (auto simp: closed_above_def nth_append dest: refs_obj_reloc)

lemma closed_above_append:
  assumes "closed_above n h" and "\<forall>ob \<in> set ext. \<forall>b \<in> refs_obj ob. n \<le> b"
  shows "closed_above n (h @ ext)"
  unfolding closed_above_def
proof (intro allI impI ballI)
  fix i b assume i: "n \<le> i" "i < length (h @ ext)" and b: "b \<in> refs_obj ((h @ ext) ! i)"
  show "n \<le> b"
  proof (cases "i < length h")
    case True
    with assms(1) i b show ?thesis by (auto simp: closed_above_def nth_append)
  next
    case False
    with i have "(h @ ext) ! i \<in> set ext" by (simp add: nth_append)
    with assms(2) b show ?thesis by blast
  qed
qed

lemma closed_above_update:
  assumes "closed_above n h" and "\<forall>b \<in> refs_obj ob. n \<le> b"
  shows "closed_above n (h[c := ob])"
  unfolding closed_above_def
proof (intro allI impI ballI)
  fix i b assume i: "n \<le> i" "i < length (h[c := ob])" and b: "b \<in> refs_obj (h[c := ob] ! i)"
  show "n \<le> b"
  proof (cases "i = c")
    case True
    with i b assms(2) show ?thesis by simp
  next
    case False
    with i b assms(1) show ?thesis by (auto simp: closed_above_def)
  qed
qed

lemma refs_val_get_or:
  assumes "b \<in> refs_val (get_or kw k d)" and "refs_val d = {}"
  shows "\<exists>v. map_of kw k = Some v \<and> b \<in> refs_val v"
  using assms by (auto simp: get_or_def split: option.splits)

lemma refs_with_defaults:
  assumes "b \<in> refs_config (with_defaults kw nd cc sc)"
  shows "b \<in> refs_val nd \<or> b \<in> refs_val cc \<or> b \<in> refs_val sc
         \<or> (\<exists>k v. map_of kw k = Some v \<and> b \<in> refs_val v)"
  using assms
  by (auto simp: refs_config_def with_defaults_def dest!: refs_val_get_or)

lemma refs_set_collection_name:
  "b \<in> refs_config (cfg\<lparr>collection_name := VStr s\<rparr>) \<Longrightarrow> b \<in> refs_config cfg"
  by (auto simp: refs_config_def)

lemma map_of_refs:
  "map_of kvs k = Some v \<Longrightarrow> b \<in> refs_val v \<Longrightarrow> b \<in> refs_obj (Dict kvs)"
  by (auto dest!: map_of_SomeD intro!: bexI [of _ "(k, v)"])

lemma dataclass_from_dict_Inl: "dataclass_from_dict h kw = (Inl e, h') \<Longrightarrow> h' = h"
  by (auto simp: dataclass_from_dict_def MilvusConfig_init_def new_dict_def
      split: if_splits option.splits prod.splits)

lemma dataclass_from_dict_frame:
  assumes r: "dataclass_from_dict h kw = (Inr c, h')"
    and cl: "closed_above n h" and n: "n \<le> length h"
    and kw: "\<forall>b \<in> refs_obj (Dict kw). n \<le> b"
  shows "(\<exists>ext. h' = h @ ext) \<and> closed_above n h' \<and> n \<le> c"
proof -
  from dataclass_from_dict_Inr [OF r] obtain nd ext cc sc
    where nd: "map_of kw ''n_dim'' = Some nd" and c: "c = length h + length ext"
      and h': "h' = h @ ext @ [Config (with_defaults kw nd cc sc)]"
      and ext: "list_all (\<lambda>ob. ob = Dict []) ext"
      and cc: "case map_of kw ''collection_config'' of Some v \<Rightarrow> cc = v
          | None \<Rightarrow> \<exists>b. cc = VRef b \<and> length h \<le> b"
      and sc: "case map_of kw ''serialize_config'' of Some v \<Rightarrow> sc = v
          | None \<Rightarrow> \<exists>b. sc = VRef b \<and> length h \<le> b"
    by blast
  have rnd: "\<forall>b \<in> refs_val nd. n \<le> b"
    using nd kw map_of_refs by blast
  have rcc: "\<forall>b \<in> refs_val cc. n \<le> b"
  proof (cases "map_of kw ''collection_config''")
    case None
    with cc n show ?thesis by auto
  next
    case (Some v)
    with cc kw map_of_refs show ?thesis by force
  qed
  have rsc: "\<forall>b \<in> refs_val sc. n \<le> b"
  proof (cases "map_of kw ''serialize_config''")
    case None
    with sc n show ?thesis by auto
  next
    case (Some v)
    with sc kw map_of_refs show ?thesis by force
  qed
  have rcfg: "\<forall>b \<in> refs_config (with_defaults kw nd cc sc). n \<le> b"
  proof
    fix b assume "b \<in> refs_config (with_defaults kw nd cc sc)"
    from refs_with_defaults [OF this] rnd rcc rsc kw map_of_refs
    show "n \<le> b" by blast
  qed
  have rext: "\<forall>ob \<in> set (ext @ [Config (with_defaults kw nd cc sc)]). \<forall>b \<in> refs_obj ob. n \<le> b"
    using ext rcfg by (auto simp: list_all_iff)
  have "closed_above n (h @ (ext @ [Config (with_defaults kw nd cc sc)]))"
    using cl rext by (rule closed_above_append)
  with h' c n show ?thesis by auto
qed

lemma to_dataclass_frame:
  assumes r: "to_dataclass h (VRef a) = (r, h')"
    and cl: "closed_above n h" and n: "n \<le> a"
  shows "(\<exists>ext. h' = h @ ext) \<and> closed_above n h' \<and> (\<forall>c. r = Inr c \<longrightarrow> n \<le> c)"
proof (cases "lookup h a")
  case None
  with r cl show ?thesis by (auto simp: to_dataclass_def)
next
  case (Some ob)
  then have a: "a < length h" and ob: "ob = h ! a"
    by (auto simp: lookup_def split: if_splits)
  show ?thesis
  proof (cases ob)
    case (Config c)
    with r Some cl n show ?thesis by (auto simp: to_dataclass_def)
  next
    case (Dict kvs)
    with r Some have d: "dataclass_from_dict h kvs = (r, h')"
      by (simp add: to_dataclass_def)
    have kw: "\<forall>b \<in> refs_obj (Dict kvs). n \<le> b"
      using cl n a ob Dict unfolding closed_above_def by metis
    show ?thesis
    proof (cases r)
      case (Inl e)
      with d have "h' = h" by (simp add: dataclass_from_dict_Inl)
      with Inl cl show ?thesis by simp
    next
      case (Inr c)
      from dataclass_from_dict_frame [OF d [unfolded Inr] cl _ kw] n a Inr
      show ?thesis by simp
    qed
  qed
qed

lemma resolve_config_frame:
  assumes r: "resolve_config rnd h config = (r, h')"
  shows "take (length h) h' = h \<and> closed_above (length h) h'
         \<and> (\<forall>c. r = Inr c \<longrightarrow> length h \<le> c)"
proof (cases "\<exists>a. config = VRef a")
  case False
  then have d: "deepcopy h config = (h, config)"
    by (cases config) (simp_all add: deepcopy_def)
  from False have "to_dataclass h config = (Inl AttributeError, h)"
    by (cases config) (simp_all add: to_dataclass_def)
  with r d have "h' = h" and "\<exists>e. r = Inl e"
    by (auto simp: resolve_config_def split: if_splits)
  then show ?thesis by (auto simp: closed_above_def)
next
  case True
  then obtain a where a: "config = VRef a" by blast
  let ?n = "length h"
  let ?H = "h @ map (reloc_obj ?n) h"
  have d: "deepcopy h config = (?H, VRef (a + ?n))" using a by (simp add: deepcopy_def)
  have clH: "closed_above ?n ?H" by (rule closed_above_deepcopy)
  show ?thesis
  proof (cases "truthy ?H (VRef (a + ?n))")
    case False
    with r d have "h' = ?H" "\<exists>e. r = Inl e" by (auto simp: resolve_config_def)
    with clH show ?thesis by auto
  next
    case True
    obtain r2 h2 where t: "to_dataclass ?H (VRef (a + ?n)) = (r2, h2)"
      by (cases "to_dataclass ?H (VRef (a + ?n))")
    from to_dataclass_frame [OF t clH] obtain ext
      where h2: "h2 = ?H @ ext" and cl2: "closed_above ?n h2"
        and c2: "\<forall>c. r2 = Inr c \<longrightarrow> ?n \<le> c"
      by auto
    show ?thesis
    proof (cases r2)
      case (Inl e)
      with r d True t have "h' = h2" "\<exists>e. r = Inl e" by (auto simp: resolve_config_def)
      with h2 cl2 show ?thesis by auto
    next
      case (Inr c)
      with c2 have c: "?n \<le> c" by simp
      show ?thesis
      proof (cases "get_config h2 c")
        case (Inl e)
        with r d True t Inr have "h' = h2" "\<exists>e. r = Inl e" by (auto simp: resolve_config_def)
        with h2 cl2 show ?thesis by auto
      next
        case (Inr cfg)
        then have lk: "c < length h2" "h2 ! c = Config cfg"
          by (auto simp: get_config_def lookup_def split: if_splits option.splits pyobj.splits)
        have rc: "\<forall>b \<in> refs_config cfg. ?n \<le> b"
          using cl2 c lk unfolding closed_above_def by (metis refs_obj.simps(2))
        show ?thesis
        proof (cases "collection_name cfg = VNone")
          case False
          with r d True t \<open>r2 = Inr c\<close> Inr have "h' = h2" "r = Inr c"
            by (auto simp: resolve_config_def)
          with h2 cl2 c show ?thesis by auto
        next
          case True
          let ?ob = "Config (cfg\<lparr>collection_name := VStr (''docarray__'' @ uuid_hex (uuid4 rnd))\<rparr>)"
          from True r d \<open>truthy ?H (VRef (a + ?n))\<close> t \<open>r2 = Inr c\<close> Inr
          have h': "h' = h2[c := ?ob]" and rr: "r = Inr c"
            by (auto simp: resolve_config_def)
          have "\<forall>b \<in> refs_obj ?ob. ?n \<le> b"
            using rc refs_set_collection_name by auto
          with cl2 have "closed_above ?n (h2[c := ?ob])" by (rule closed_above_update)
          moreover have "take ?n (h2[c := ?ob]) = h"
            using c h2 by simp
          ultimately show ?thesis using h' rr c by simp
        qed
      qed
    qed
  qed
qed

text \<open>
  Claim C8. The resolution works on a deep copy: whatever the input and the outcome, every
  object that was in the store before the call is the same after it, so filling the
  defaults and writing the generated name have not touched the caller's object; and no
  object that can be reached from the resolved configuration is one of the objects that
  existed before the call, so a later mutation through the resolved configuration cannot
  touch them either.
\<close>

theorem resolve_config_deep_copy:
  "resolve_config rnd h config = (r, h') \<longrightarrow>
     take (length h) h' = h
     \<and> (\<forall>a < length h. lookup h' a = lookup h a)
     \<and> (\<forall>c b. r = Inr c \<and> reaches h' c b \<longrightarrow> length h \<le> b)"
proof (intro impI conjI allI)
  assume r: "resolve_config rnd h config = (r, h')"
  note f = resolve_config_frame [OF r]
  from f show t: "take (length h) h' = h" by simp
  have "length (take (length h) h') = length h" using t by simp
  then have len: "length h \<le> length h'" by simp
  { fix a assume a: "a < length h"
    have "take (length h) h' ! a = h' ! a" using a by simp
    with t have "h' ! a = h ! a" by simp
    with len a show "lookup h' a = lookup h a" by (simp add: lookup_def) }
  fix c b assume cb: "r = Inr c \<and> reaches h' c b"
  with f have "length h \<le> c" "closed_above (length h) h'" by simp_all
  with cb show "length h \<le> b" using reaches_above [of h' c b "length h"] by simp
qed

theorem resolve_config_deep_copy_witness:
  "resolve_config 0 example_heap (VRef 0) =
     (Inr (0 + length example_heap),
      example_heap @ map (reloc_obj (length example_heap)) example_heap)
   \<and> take (length example_heap)
        (example_heap @ map (reloc_obj (length example_heap)) example_heap) = example_heap
   \<and> \<not> reaches (example_heap @ map (reloc_obj (length example_heap)) example_heap)
         (0 + length example_heap) 0
   \<and> \<not> reaches (example_heap @ map (reloc_obj (length example_heap)) example_heap)
         (0 + length example_heap) 1
   \<and> (\<exists>c h'. resolve_config 0 example_heap (VRef 3) = (Inr c, h')
         \<and> lookup h' 3 = Some (Dict [(''n_dim'', VInt 128)])
         \<and> \<not> reaches h' c 3)"
proof -
  let ?H = "example_heap @ map (reloc_obj (length example_heap)) example_heap"
  have len: "length example_heap = 6" by (simp add: example_heap_def)
  have l0: "lookup example_heap 0 = Some (Config example_config)"
    and l3: "lookup example_heap 3 = Some (Dict [(''n_dim'', VInt 128)])"
    by (simp_all add: lookup_def example_heap_def)
  have n0: "collection_name example_config \<noteq> VNone"
    by (simp add: example_config_def)
  have r0: "resolve_config 0 example_heap (VRef 0) = (Inr (0 + length example_heap), ?H)"
    using l0 n0 by (simp add: resolve_config_object)
  note t0 = resolve_config_deep_copy
    [of 0 example_heap "VRef 0" "Inr (0 + length example_heap)" ?H]
  from t0 r0 have a: "take (length example_heap) ?H = example_heap" by blast
  from t0 r0 have "\<forall>b. reaches ?H (0 + length example_heap) b \<longrightarrow> length example_heap \<le> b"
    by blast
  then have b: "\<not> reaches ?H (0 + length example_heap) 0"
    and c: "\<not> reaches ?H (0 + length example_heap) 1"
    using len by auto
  obtain c3 h3 where r3: "resolve_config 0 example_heap (VRef 3) = (Inr c3, h3)"
    using resolve_config_n_dim_only [OF l3, of 0] by blast
  note t3 = resolve_config_deep_copy [of 0 example_heap "VRef 3" "Inr c3" h3]
  from t3 r3 len have "lookup h3 3 = lookup example_heap 3" by simp
  with l3 have d: "lookup h3 3 = Some (Dict [(''n_dim'', VInt 128)])" by simp
  from t3 r3 have "\<forall>b. reaches h3 c3 b \<longrightarrow> length example_heap \<le> b" by blast
  then have e: "\<not> reaches h3 c3 3" using len by auto
  from r3 d e have "\<exists>c h'. resolve_config 0 example_heap (VRef 3) = (Inr c, h')
         \<and> lookup h' 3 = Some (Dict [(''n_dim'', VInt 128)]) \<and> \<not> reaches h' c 3"
    by blast
  with r0 a b c show ?thesis by blast
qed

subsection \<open>Provisioning\<close>

lemma call_client_calls:
  "call_client env c w = (r, w') \<Longrightarrow>
   w' = w\<lparr>calls := calls w @ [c]\<rparr> \<and> (r = Inr () \<or> r = Inl ClientError)"
  by (auto simp: call_client_def split: if_splits)

lemma create_or_reuse_collection_cases:
  assumes "create_or_reuse_collection env self w = (r, w')"
  shows "(w' = w \<and> (\<exists>e. r = Inl e))
     \<or> (\<exists>cfg kw c. get_config (objs w) (self_config self) = Inr cfg
           \<and> kwargs_of (objs w) (collection_config cfg) = Inr kw
           \<and> c = \<lparr>name_c = collection_name cfg, schema_c = primary_schema (n_dim cfg),
                   using_c = self_connection_alias self, kwargs_c = kw\<rparr>
           \<and> w' = w\<lparr>calls := calls w @ [CreateCollection c]\<rparr>
           \<and> (r = Inr c \<or> r = Inl ClientError))"
proof (cases "get_config (objs w) (self_config self)")
  case (Inl e)
  with assms show ?thesis by (auto simp: create_or_reuse_collection_def)
next
  case (Inr cfg)
  note cfg = this
  show ?thesis
  proof (cases "kwargs_of (objs w) (collection_config cfg)")
    case (Inl e)
    with assms cfg show ?thesis by (auto simp: create_or_reuse_collection_def)
  next
    case (Inr kw)
    let ?c = "\<lparr>name_c = collection_name cfg, schema_c = primary_schema (n_dim cfg),
                   using_c = self_connection_alias self, kwargs_c = kw\<rparr>"
    show ?thesis
    proof (cases "list_ex (\<lambda>kv. List.member [''name'', ''schema'', ''using''] (fst kv)) kw")
      case True
      with assms cfg Inr show ?thesis by (auto simp: create_or_reuse_collection_def)
    next
      case False
      obtain r1 w1 where cc: "call_client env (CreateCollection ?c) w = (r1, w1)"
        by (cases "call_client env (CreateCollection ?c) w")
      from call_client_calls [OF cc]
      have w1: "w1 = w\<lparr>calls := calls w @ [CreateCollection ?c]\<rparr>"
        and r1: "r1 = Inr () \<or> r1 = Inl ClientError" by simp_all
      from assms cfg Inr False cc r1
      have "w' = w1" and "r = Inr ?c \<or> r = Inl ClientError"
        by (auto simp: create_or_reuse_collection_def Let_def)
      with w1 cfg Inr show ?thesis by blast
    qed
  qed
qed

lemma create_or_reuse_offset2id_collection_cases:
  assumes "create_or_reuse_offset2id_collection env self w = (r, w')"
  shows "(w' = w \<and> (\<exists>e. r = Inl e))
     \<or> (\<exists>cfg nm c. get_config (objs w) (self_config self) = Inr cfg
           \<and> collection_name cfg = VStr nm
           \<and> c = \<lparr>name_c = VStr (nm @ ''_offset2id''), schema_c = offset2id_schema,
                   using_c = self_connection_alias self, kwargs_c = []\<rparr>
           \<and> w' = w\<lparr>calls := calls w @ [CreateCollection c]\<rparr>
           \<and> (r = Inr c \<or> r = Inl ClientError))"
proof (cases "get_config (objs w) (self_config self)")
  case (Inl e)
  with assms show ?thesis by (auto simp: create_or_reuse_offset2id_collection_def)
next
  case (Inr cfg)
  note cfg = this
  show ?thesis
  proof (cases "add_str (collection_name cfg) ''_offset2id''")
    case (Inl e)
    with assms cfg show ?thesis by (auto simp: create_or_reuse_offset2id_collection_def)
  next
    case (Inr s)
    then obtain nm where nm: "collection_name cfg = VStr nm" and s: "s = nm @ ''_offset2id''"
      by (auto simp: add_str_def split: pyval.splits)
    let ?c = "\<lparr>name_c = VStr (nm @ ''_offset2id''), schema_c = offset2id_schema,
                   using_c = self_connection_alias self, kwargs_c = []\<rparr>"
    obtain r1 w1 where cc: "call_client env (CreateCollection ?c) w = (r1, w1)"
      by (cases "call_client env (CreateCollection ?c) w")
    from call_client_calls [OF cc]
    have w1: "w1 = w\<lparr>calls := calls w @ [CreateCollection ?c]\<rparr>"
      and r1: "r1 = Inr () \<or> r1 = Inl ClientError" by simp_all
    from assms cfg Inr s cc r1
    have "w' = w1" and "r = Inr ?c \<or> r = Inl ClientError"
      by (auto simp: create_or_reuse_offset2id_collection_def Let_def)
    with w1 cfg nm show ?thesis by blast
  qed
qed

lemma kwargs_of_Inr:
  "kwargs_of h v = Inr kw \<Longrightarrow> \<exists>a. v = VRef a \<and> lookup h a = Some (Dict kw)"
  by (auto simp: kwargs_of_def split: pyval.splits option.splits pyobj.splits)

lemma get_config_Inr: "get_config h a = Inr cfg \<Longrightarrow> lookup h a = Some (Config cfg)"
  by (auto simp: get_config_def split: option.splits pyobj.splits)

lemma no_clash:
  "fst ` set kw \<inter> {''name'', ''schema'', ''using''} = {} \<Longrightarrow>
   \<not> list_ex (\<lambda>kv. List.member [''name'', ''schema'', ''using''] (fst kv)) kw"
  by (force simp: list_ex_iff)

lemma create_or_reuse_collection_call:
  assumes "lookup (objs w) (self_config self) = Some (Config cfg)"
    and "collection_config cfg = VRef a" and "lookup (objs w) a = Some (Dict kw)"
    and "fst ` set kw \<inter> {''name'', ''schema'', ''using''} = {}"
  shows "create_or_reuse_collection env self w =
     (if accepts env (calls w)
           (CreateCollection \<lparr>name_c = collection_name cfg,
              schema_c = primary_schema (n_dim cfg),
              using_c = self_connection_alias self, kwargs_c = kw\<rparr>)
      then Inr \<lparr>name_c = collection_name cfg, schema_c = primary_schema (n_dim cfg),
              using_c = self_connection_alias self, kwargs_c = kw\<rparr>
      else Inl ClientError,
      w\<lparr>calls := calls w @
          [CreateCollection \<lparr>name_c = collection_name cfg,
              schema_c = primary_schema (n_dim cfg),
              using_c = self_connection_alias self, kwargs_c = kw\<rparr>]\<rparr>)"
proof -
  have g: "get_config (objs w) (self_config self) = Inr cfg"
    using assms(1) by (simp add: get_config_def)
  have k: "kwargs_of (objs w) (collection_config cfg) = Inr kw"
    using assms(2,3) by (simp add: kwargs_of_def)
  note n = no_clash [OF assms(4)]
  show ?thesis
    using n by (simp add: create_or_reuse_collection_def g k call_client_def Let_def)
qed

lemma create_or_reuse_offset2id_collection_call:
  assumes "lookup (objs w) (self_config self) = Some (Config cfg)"
    and "collection_name cfg = VStr nm"
  shows "create_or_reuse_offset2id_collection env self w =
     (if accepts env (calls w)
           (CreateCollection \<lparr>name_c = VStr (nm @ ''_offset2id''),
              schema_c = offset2id_schema,
              using_c = self_connection_alias self, kwargs_c = []\<rparr>)
      then Inr \<lparr>name_c = VStr (nm @ ''_offset2id''), schema_c = offset2id_schema,
              using_c = self_connection_alias self, kwargs_c = []\<rparr>
      else Inl ClientError,
      w\<lparr>calls := calls w @
          [CreateCollection \<lparr>name_c = VStr (nm @ ''_offset2id''),
              schema_c = offset2id_schema,
              using_c = self_connection_alias self, kwargs_c = []\<rparr>]\<rparr>)"
proof -
  have g: "get_config (objs w) (self_config self) = Inr cfg"
    using assms(1) by (simp add: get_config_def)
  show ?thesis
    using assms(2)
    by (simp add: create_or_reuse_offset2id_collection_def g add_str_def call_client_def Let_def)
qed

text \<open>
  Claim C9. Whenever the configuration has a dictionary \<^verbatim>\<open>collection_config\<close> (none of
  whose keys is one of the three keywords the code passes by name), the primary collection
  is created by a call that carries the entries of that dictionary as its further keyword
  arguments, and the offset2id collection is created by a call that carries no further
  keyword argument at all, whatever \<^verbatim>\<open>collection_config\<close> holds. Conversely, a creation
  call that either method makes is of that form.
\<close>

theorem collection_options_policy:
  "(lookup (objs w) (self_config self) = Some (Config cfg)
      \<and> collection_config cfg = VRef a \<and> lookup (objs w) a = Some (Dict kw)
      \<and> fst ` set kw \<inter> {''name'', ''schema'', ''using''} = {} \<longrightarrow>
      (\<exists>c w'. kwargs_c c = kw \<and> name_c c = collection_name cfg
         \<and> schema_c c = primary_schema (n_dim cfg)
         \<and> using_c c = self_connection_alias self
         \<and> create_or_reuse_collection env self w =
             (if accepts env (calls w) (CreateCollection c) then Inr c else Inl ClientError, w')
         \<and> calls w' = calls w @ [CreateCollection c] \<and> objs w' = objs w))
   \<and> (lookup (objs w) (self_config self) = Some (Config cfg)
      \<and> collection_name cfg = VStr nm \<longrightarrow>
      (\<exists>c w'. kwargs_c c = [] \<and> name_c c = VStr (nm @ ''_offset2id'')
         \<and> schema_c c = offset2id_schema
         \<and> using_c c = self_connection_alias self
         \<and> create_or_reuse_offset2id_collection env self w =
             (if accepts env (calls w) (CreateCollection c) then Inr c else Inl ClientError, w')
         \<and> calls w' = calls w @ [CreateCollection c] \<and> objs w' = objs w))
   \<and> (create_or_reuse_collection env self w = (r, w1) \<and> calls w1 \<noteq> calls w \<longrightarrow>
      (\<exists>cfg a kw c. lookup (objs w) (self_config self) = Some (Config cfg)
         \<and> collection_config cfg = VRef a \<and> lookup (objs w) a = Some (Dict kw)
         \<and> calls w1 = calls w @ [CreateCollection c]
         \<and> kwargs_c c = kw
         \<and> (r = Inr c \<or> r = Inl ClientError)))
   \<and> (create_or_reuse_offset2id_collection env self w = (r2, w2) \<and> calls w2 \<noteq> calls w \<longrightarrow>
      (\<exists>c. calls w2 = calls w @ [CreateCollection c]
         \<and> kwargs_c c = []
         \<and> (r2 = Inr c \<or> r2 = Inl ClientError)))"
proof (intro conjI impI)
  assume a: "lookup (objs w) (self_config self) = Some (Config cfg)
      \<and> collection_config cfg = VRef a \<and> lookup (objs w) a = Some (Dict kw)
      \<and> fst ` set kw \<inter> {''name'', ''schema'', ''using''} = {}"
  let ?c = "\<lparr>name_c = collection_name cfg, schema_c = primary_schema (n_dim cfg),
              using_c = self_connection_alias self, kwargs_c = kw\<rparr>"
  from a have "create_or_reuse_collection env self w =
     (if accepts env (calls w) (CreateCollection ?c) then Inr ?c else Inl ClientError,
      w\<lparr>calls := calls w @ [CreateCollection ?c]\<rparr>)"
    by (simp add: create_or_reuse_collection_call)
  then show "\<exists>c w'. kwargs_c c = kw \<and> name_c c = collection_name cfg
         \<and> schema_c c = primary_schema (n_dim cfg)
         \<and> using_c c = self_connection_alias self
         \<and> create_or_reuse_collection env self w =
             (if accepts env (calls w) (CreateCollection c) then Inr c else Inl ClientError, w')
         \<and> calls w' = calls w @ [CreateCollection c] \<and> objs w' = objs w"
    by (intro exI [of _ ?c] exI [of _ "w\<lparr>calls := calls w @ [CreateCollection ?c]\<rparr>"]) simp
next
  assume a: "lookup (objs w) (self_config self) = Some (Config cfg)
      \<and> collection_name cfg = VStr nm"
  let ?c = "\<lparr>name_c = VStr (nm @ ''_offset2id''), schema_c = offset2id_schema,
              using_c = self_connection_alias self, kwargs_c = []\<rparr>"
  from a have "create_or_reuse_offset2id_collection env self w =
     (if accepts env (calls w) (CreateCollection ?c) then Inr ?c else Inl ClientError,
      w\<lparr>calls := calls w @ [CreateCollection ?c]\<rparr>)"
    by (simp add: create_or_reuse_offset2id_collection_call)
  then show "\<exists>c w'. kwargs_c c = [] \<and> name_c c = VStr (nm @ ''_offset2id'')
         \<and> schema_c c = offset2id_schema
         \<and> using_c c = self_connection_alias self
         \<and> create_or_reuse_offset2id_collection env self w =
             (if accepts env (calls w) (CreateCollection c) then Inr c else Inl ClientError, w')
         \<and> calls w' = calls w @ [CreateCollection c] \<and> objs w' = objs w"
    by (intro exI [of _ ?c] exI [of _ "w\<lparr>calls := calls w @ [CreateCollection ?c]\<rparr>"]) simp
next
  assume a: "create_or_reuse_collection env self w = (r, w1) \<and> calls w1 \<noteq> calls w"
  with create_or_reuse_collection_cases [of env self w r w1]
  obtain cfg kw c where g: "get_config (objs w) (self_config self) = Inr cfg"
    and k: "kwargs_of (objs w) (collection_config cfg) = Inr kw"
    and c: "c = \<lparr>name_c = collection_name cfg, schema_c = primary_schema (n_dim cfg),
                   using_c = self_connection_alias self, kwargs_c = kw\<rparr>"
    and w1: "w1 = w\<lparr>calls := calls w @ [CreateCollection c]\<rparr>"
    and r: "r = Inr c \<or> r = Inl ClientError"
    by blast
  from kwargs_of_Inr [OF k] obtain a where
    a: "collection_config cfg = VRef a" "lookup (objs w) a = Some (Dict kw)" by blast
  note l = get_config_Inr [OF g]
  have "calls w1 = calls w @ [CreateCollection c]" using w1 by simp
  moreover have "kwargs_c c = kw" using c by simp
  ultimately show "\<exists>cfg a kw c. lookup (objs w) (self_config self) = Some (Config cfg)
         \<and> collection_config cfg = VRef a \<and> lookup (objs w) a = Some (Dict kw)
         \<and> calls w1 = calls w @ [CreateCollection c]
         \<and> kwargs_c c = kw
         \<and> (r = Inr c \<or> r = Inl ClientError)"
    using l a r by (intro exI [of _ cfg] exI [of _ a] exI [of _ kw] exI [of _ c]) simp
next
  assume a: "create_or_reuse_offset2id_collection env self w = (r2, w2) \<and> calls w2 \<noteq> calls w"
  with create_or_reuse_offset2id_collection_cases [of env self w r2 w2]
  obtain cfg nm c where
    "c = \<lparr>name_c = VStr (nm @ ''_offset2id''), schema_c = offset2id_schema,
                   using_c = self_connection_alias self, kwargs_c = []\<rparr>"
    "w2 = w\<lparr>calls := calls w @ [CreateCollection c]\<rparr>"
    "r2 = Inr c \<or> r2 = Inl ClientError"
    by blast
  then show "\<exists>c. calls w2 = calls w @ [CreateCollection c]
         \<and> kwargs_c c = [] \<and> (r2 = Inr c \<or> r2 = Inl ClientError)"
    by (intro exI [of _ c]) simp
qed

theorem collection_options_policy_witness:
  "lookup (objs example_world) (self_config example_self) = Some (Config example_config)
   \<and> collection_config example_config = VRef 1
   \<and> lookup (objs example_world) 1 = Some (Dict [(''consistency_level'', VStr ''Strong'')])
   \<and> fst ` set [(''consistency_level'', VStr ''Strong'')] \<inter> {''name'', ''schema'', ''using''}
       = {}
   \<and> (\<exists>c w'. kwargs_c c = [(''consistency_level'', VStr ''Strong'')]
         \<and> create_or_reuse_collection example_env example_self example_world = (Inr c, w')
         \<and> calls w' = calls example_world @ [CreateCollection c])
   \<and> collection_name example_config = VStr ''docs''
   \<and> (\<exists>c w'. kwargs_c c = [] \<and> name_c c = VStr ''docs_offset2id''
         \<and> create_or_reuse_offset2id_collection example_env example_self example_world =
             (Inr c, w')
         \<and> calls w' = calls example_world @ [CreateCollection c])
   \<and> lookup (objs example_default_world) 1 = Some (Dict [])
   \<and> (\<exists>c w'. kwargs_c c = []
         \<and> create_or_reuse_collection example_env example_self example_default_world =
             (Inr c, w')
         \<and> calls w' = calls example_default_world @ [CreateCollection c])"
proof -
  let ?kw = "[(''consistency_level'', VStr ''Strong'')]"
  let ?dcfg = "example_config\<lparr>collection_config := VRef 1, serialize_config := VRef 2\<rparr>"
  have l: "lookup (objs example_world) (self_config example_self) = Some (Config example_config)"
    and cc: "collection_config example_config = VRef 1"
    and k: "lookup (objs example_world) 1 = Some (Dict ?kw)"
    and nm: "collection_name example_config = VStr ''docs''"
    by (simp_all add: lookup_def example_world_def example_self_def example_heap_def
        example_config_def)
  have nc: "fst ` set ?kw \<inter> {''name'', ''schema'', ''using''} = {}" by simp
  have dl: "lookup (objs example_default_world) (self_config example_self) = Some (Config ?dcfg)"
    and dcc: "collection_config ?dcfg = VRef 1"
    and dk: "lookup (objs example_default_world) 1 = Some (Dict [])"
    by (simp_all add: lookup_def example_default_world_def example_self_def)
  have dnc: "fst ` set ([] :: pydict) \<inter> {''name'', ''schema'', ''using''} = {}" by simp
  have acc: "accepts example_env trace call = True" for trace call
    by (simp add: example_env_def)
  note primary = collection_options_policy [THEN conjunct1, rule_format]
  note second = collection_options_policy [THEN conjunct2, THEN conjunct1, rule_format]
  from primary [of example_world example_self example_config 1 ?kw example_env,
      OF conjI [OF l conjI [OF cc conjI [OF k nc]]]]
  obtain c w' where "kwargs_c c = ?kw"
    "create_or_reuse_collection example_env example_self example_world =
      (if accepts example_env (calls example_world) (CreateCollection c)
       then Inr c else Inl ClientError, w')"
    "calls w' = calls example_world @ [CreateCollection c]"
    by (elim exE conjE)
  then have a: "\<exists>c w'. kwargs_c c = ?kw
         \<and> create_or_reuse_collection example_env example_self example_world = (Inr c, w')
         \<and> calls w' = calls example_world @ [CreateCollection c]"
    by (intro exI [of _ c] exI [of _ w']) (simp add: acc)
  from second [of example_world example_self example_config "''docs''" example_env,
      OF conjI [OF l nm]]
  obtain c2 w2 where "kwargs_c c2 = []" "name_c c2 = VStr (''docs'' @ ''_offset2id'')"
    "create_or_reuse_offset2id_collection example_env example_self example_world =
      (if accepts example_env (calls example_world) (CreateCollection c2)
       then Inr c2 else Inl ClientError, w2)"
    "calls w2 = calls example_world @ [CreateCollection c2]"
    by (elim exE conjE)
  then have b: "\<exists>c w'. kwargs_c c = [] \<and> name_c c = VStr ''docs_offset2id''
         \<and> create_or_reuse_offset2id_collection example_env example_self example_world =
             (Inr c, w')
         \<and> calls w' = calls example_world @ [CreateCollection c]"
    by (intro exI [of _ c2] exI [of _ w2]) (simp add: acc)
  from primary [of example_default_world example_self ?dcfg 1 "[]" example_env,
      OF conjI [OF dl conjI [OF dcc conjI [OF dk dnc]]]]
  obtain c3 w3 where "kwargs_c c3 = []"
    "create_or_reuse_collection example_env example_self example_default_world =
      (if accepts example_env (calls example_default_world) (CreateCollection c3)
       then Inr c3 else Inl ClientError, w3)"
    "calls w3 = calls example_default_world @ [CreateCollection c3]"
    by (elim exE conjE)
  then have d: "\<exists>c w'. kwargs_c c = []
         \<and> create_or_reuse_collection example_env example_self example_default_world =
             (Inr c, w')
         \<and> calls w' = calls example_default_world @ [CreateCollection c]"
    by (intro exI [of _ c3] exI [of _ w3]) (simp add: acc)
  show ?thesis
    by (intro conjI) (rule l cc k nc a nm b dk d)+
qed

lemma init_storage_Inr:
  assumes i: "init_storage env w docs config kwargs = (Inr ad, w')"
  shows "\<exists>c h cfg kw nm c1 c2.
     resolve_config (urandom env) (objs w) config = (Inr c, h)
     \<and> get_config h c = Inr cfg
     \<and> kwargs_of h (collection_config cfg) = Inr kw
     \<and> collection_name cfg = VStr nm
     \<and> c1 = \<lparr>name_c = VStr nm, schema_c = primary_schema (n_dim cfg),
              using_c = ''docarray_default_connection'', kwargs_c = kw\<rparr>
     \<and> c2 = \<lparr>name_c = VStr (nm @ ''_offset2id''), schema_c = offset2id_schema,
              using_c = ''docarray_default_connection'', kwargs_c = []\<rparr>
     \<and> ad = \<lparr>self_config = c, self_connection_alias = ''docarray_default_connection'',
              self_collection = Some c1, self_offset2id_collection = Some c2\<rparr>
     \<and> objs w' = h
     \<and> calls w' = calls w @
          [Connect ''docarray_default_connection'' (host cfg) (port cfg),
           CreateCollection c1, CreateCollection c2, BaseInitStorage docs c kwargs]"
proof -
  let ?conn = "''docarray_default_connection''"
  obtain r0 h where rc: "resolve_config (urandom env) (objs w) config = (r0, h)"
    by (cases "resolve_config (urandom env) (objs w) config")
  from i rc obtain c where r0: "r0 = Inr c"
    by (cases r0) (simp_all add: init_storage_def)
  let ?w1 = "w\<lparr>objs := h\<rparr>"
  let ?self1 = "\<lparr>self_config = c, self_connection_alias = ?conn,
                 self_collection = None, self_offset2id_collection = None\<rparr>"
  from i rc r0 obtain cfg where g: "get_config h c = Inr cfg"
    by (cases "get_config h c") (simp_all add: init_storage_def)
  obtain r2 w2 where cc: "call_client env (Connect ?conn (host cfg) (port cfg)) ?w1 = (r2, w2)"
    by (cases "call_client env (Connect ?conn (host cfg) (port cfg)) ?w1")
  from i rc r0 g cc have r2: "r2 = Inr ()"
    by (cases r2) (simp_all add: init_storage_def)
  from call_client_calls [OF cc]
  have w2: "w2 = ?w1\<lparr>calls := calls ?w1 @ [Connect ?conn (host cfg) (port cfg)]\<rparr>" by simp
  obtain r3 w3 where c3: "create_or_reuse_collection env ?self1 w2 = (r3, w3)"
    by (cases "create_or_reuse_collection env ?self1 w2")
  from i rc r0 g cc r2 c3 obtain coll where r3: "r3 = Inr coll"
    by (cases r3) (simp_all add: init_storage_def)
  let ?self2 = "?self1\<lparr>self_collection := Some coll\<rparr>"
  obtain r4 w4 where c4: "create_or_reuse_offset2id_collection env ?self2 w3 = (r4, w4)"
    by (cases "create_or_reuse_offset2id_collection env ?self2 w3")
  from i rc r0 g cc r2 c3 r3 c4 obtain off where r4: "r4 = Inr off"
    by (cases r4) (simp_all add: init_storage_def)
  let ?self3 = "?self2\<lparr>self_offset2id_collection := Some off\<rparr>"
  obtain r5 w5 where c5: "call_client env (BaseInitStorage docs c kwargs) w4 = (r5, w5)"
    by (cases "call_client env (BaseInitStorage docs c kwargs) w4")
  from i rc r0 g cc r2 c3 r3 c4 r4 c5 have fin: "ad = ?self3" "w' = w5"
    by (cases r5; simp add: init_storage_def)+
  from call_client_calls [OF c5]
  have w5: "w5 = w4\<lparr>calls := calls w4 @ [BaseInitStorage docs c kwargs]\<rparr>" by simp
  have o2: "objs w2 = h" using w2 by simp
  from create_or_reuse_collection_cases [OF c3] r3 obtain kw
    where kw: "kwargs_of h (collection_config cfg) = Inr kw"
      and coll: "coll = \<lparr>name_c = collection_name cfg, schema_c = primary_schema (n_dim cfg),
                   using_c = ?conn, kwargs_c = kw\<rparr>"
      and w3: "w3 = w2\<lparr>calls := calls w2 @ [CreateCollection coll]\<rparr>"
    using g o2 by auto
  have o3: "objs w3 = h" using w3 o2 by simp
  from create_or_reuse_offset2id_collection_cases [OF c4] r4 obtain nm
    where nm: "collection_name cfg = VStr nm"
      and off: "off = \<lparr>name_c = VStr (nm @ ''_offset2id''), schema_c = offset2id_schema,
                   using_c = ?conn, kwargs_c = []\<rparr>"
      and w4: "w4 = w3\<lparr>calls := calls w3 @ [CreateCollection off]\<rparr>"
    using g o3 by auto
  have "objs w' = h" using fin w5 w4 o3 by simp
  moreover have "calls w' = calls w @
          [Connect ?conn (host cfg) (port cfg),
           CreateCollection coll, CreateCollection off, BaseInitStorage docs c kwargs]"
    using fin w5 w4 w3 w2 by simp
  moreover have "ad = \<lparr>self_config = c, self_connection_alias = ?conn,
              self_collection = Some coll, self_offset2id_collection = Some off\<rparr>"
    using fin by simp
  ultimately show ?thesis
    using rc r0 g kw nm coll off by simp
qed


text \<open>
  Claim C1. When \<^verbatim>\<open>_init_storage\<close> has built an adapter whose resolved configuration has
  \<^verbatim>\<open>n_dim\<close> 128, the primary collection was created under the resolved collection name
  with exactly three fields (\<^verbatim>\<open>document_id\<close>, VARCHAR of maximal length 1024, primary
  key; \<^verbatim>\<open>embedding\<close>, float vector of dimension 128; \<^verbatim>\<open>serialized\<close>, VARCHAR of maximal
  length 65535), and a second collection was created under that name followed by
  \<^verbatim>\<open>_offset2id\<close>, with exactly three fields (\<^verbatim>\<open>offset\<close>, VARCHAR of maximal length 1024,
  primary key; \<^verbatim>\<open>document_id\<close>, VARCHAR of maximal length 1024; \<^verbatim>\<open>dummy_vector\<close>, float
  vector of dimension 1).
\<close>

theorem provisioning_fields:
  "init_storage env w docs config kwargs = (Inr ad, w')
   \<and> get_config (objs w') (self_config ad) = Inr cfg \<and> n_dim cfg = VInt 128 \<longrightarrow>
   (\<exists>c1 c2 nm.
      self_collection ad = Some c1 \<and> self_offset2id_collection ad = Some c2
      \<and> collection_name cfg = VStr nm
      \<and> name_c c1 = VStr nm
      \<and> fields_s (schema_c c1) =
          [\<lparr>name = ''document_id'', dtype = VARCHAR, max_length = Some 1024,
            dim = None, is_primary = True\<rparr>,
           \<lparr>name = ''embedding'', dtype = FLOAT_VECTOR, max_length = None,
            dim = Some (VInt 128), is_primary = False\<rparr>,
           \<lparr>name = ''serialized'', dtype = VARCHAR, max_length = Some 65535,
            dim = None, is_primary = False\<rparr>]
      \<and> length (fields_s (schema_c c1)) = 3
      \<and> name_c c2 = VStr (nm @ ''_offset2id'')
      \<and> fields_s (schema_c c2) =
          [\<lparr>name = ''offset'', dtype = VARCHAR, max_length = Some 1024,
            dim = None, is_primary = True\<rparr>,
           \<lparr>name = ''document_id'', dtype = VARCHAR, max_length = Some 1024,
            dim = None, is_primary = False\<rparr>,
           \<lparr>name = ''dummy_vector'', dtype = FLOAT_VECTOR, max_length = None,
            dim = Some (VInt 1), is_primary = False\<rparr>]
      \<and> length (fields_s (schema_c c2)) = 3
      \<and> (\<exists>first last. calls w' =
            calls w @ [first, CreateCollection c1, CreateCollection c2, last]))"
proof
  assume a: "init_storage env w docs config kwargs = (Inr ad, w')
   \<and> get_config (objs w') (self_config ad) = Inr cfg \<and> n_dim cfg = VInt 128"
  then have i: "init_storage env w docs config kwargs = (Inr ad, w')" by simp
  from init_storage_Inr [OF i] obtain c h cfg' kw nm c1 c2 where
    g: "get_config h c = Inr cfg'" and nm: "collection_name cfg' = VStr nm"
    and c1: "c1 = \<lparr>name_c = VStr nm, schema_c = primary_schema (n_dim cfg'),
              using_c = ''docarray_default_connection'', kwargs_c = kw\<rparr>"
    and c2: "c2 = \<lparr>name_c = VStr (nm @ ''_offset2id''), schema_c = offset2id_schema,
              using_c = ''docarray_default_connection'', kwargs_c = []\<rparr>"
    and ad: "ad = \<lparr>self_config = c, self_connection_alias = ''docarray_default_connection'',
              self_collection = Some c1, self_offset2id_collection = Some c2\<rparr>"
    and o: "objs w' = h"
    and tr: "calls w' = calls w @
          [Connect ''docarray_default_connection'' (host cfg') (port cfg'),
           CreateCollection c1, CreateCollection c2, BaseInitStorage docs c kwargs]"
    by blast
  from a g o ad have same: "cfg' = cfg" by simp
  from a have n: "n_dim cfg = VInt 128" by simp
  show "\<exists>c1 c2 nm.
      self_collection ad = Some c1 \<and> self_offset2id_collection ad = Some c2
      \<and> collection_name cfg = VStr nm
      \<and> name_c c1 = VStr nm
      \<and> fields_s (schema_c c1) =
          [\<lparr>name = ''document_id'', dtype = VARCHAR, max_length = Some 1024,
            dim = None, is_primary = True\<rparr>,
           \<lparr>name = ''embedding'', dtype = FLOAT_VECTOR, max_length = None,
            dim = Some (VInt 128), is_primary = False\<rparr>,
           \<lparr>name = ''serialized'', dtype = VARCHAR, max_length = Some 65535,
            dim = None, is_primary = False\<rparr>]
      \<and> length (fields_s (schema_c c1)) = 3
      \<and> name_c c2 = VStr (nm @ ''_offset2id'')
      \<and> fields_s (schema_c c2) =
          [\<lparr>name = ''offset'', dtype = VARCHAR, max_length = Some 1024,
            dim = None, is_primary = True\<rparr>,
           \<lparr>name = ''document_id'', dtype = VARCHAR, max_length = Some 1024,
            dim = None, is_primary = False\<rparr>,
           \<lparr>name = ''dummy_vector'', dtype = FLOAT_VECTOR, max_length = None,
            dim = Some (VInt 1), is_primary = False\<rparr>]
      \<and> length (fields_s (schema_c c2)) = 3
      \<and> (\<exists>first last. calls w' =
            calls w @ [first, CreateCollection c1, CreateCollection c2, last])"
    apply (rule exI [of _ c1], rule exI [of _ c2], rule exI [of _ nm])
    using ad nm same n tr
    apply (simp add: c1 c2 primary_schema_def offset2id_schema_def)
    done
qed

lemma example_init:
  "\<exists>ad w'. init_storage example_env example_world () (VRef 0) [] = (Inr ad, w')"
  by (simp add: init_storage_def resolve_config_def deepcopy_def truthy_def lookup_def
      to_dataclass_def get_config_def call_client_def create_or_reuse_collection_def
      create_or_reuse_offset2id_collection_def kwargs_of_def add_str_def
      example_env_def example_world_def example_heap_def example_config_def
      reloc_config_def nth_append Let_def)

theorem provisioning_fields_witness:
  "\<exists>ad w' cfg c1 c2.
     init_storage example_env example_world () (VRef 0) [] = (Inr ad, w')
     \<and> get_config (objs w') (self_config ad) = Inr cfg \<and> n_dim cfg = VInt 128
     \<and> self_collection ad = Some c1 \<and> self_offset2id_collection ad = Some c2
     \<and> name_c c1 = VStr ''docs'' \<and> name_c c2 = VStr ''docs_offset2id''
     \<and> length (fields_s (schema_c c1)) = 3
     \<and> map name (fields_s (schema_c c1)) = [''document_id'', ''embedding'', ''serialized'']
     \<and> length (fields_s (schema_c c2)) = 3
     \<and> map name (fields_s (schema_c c2)) = [''offset'', ''document_id'', ''dummy_vector'']"
proof -
  obtain ad w' where i: "init_storage example_env example_world () (VRef 0) [] = (Inr ad, w')"
    using example_init by blast
  have l0: "lookup example_heap 0 = Some (Config example_config)"
    by (simp add: lookup_def example_heap_def)
  have n0: "collection_name example_config \<noteq> VNone" by (simp add: example_config_def)
  let ?H = "example_heap @ map (reloc_obj (length example_heap)) example_heap"
  have rc: "resolve_config (urandom example_env) (objs example_world) (VRef 0) =
      (Inr (0 + length example_heap), ?H)"
    using l0 n0 by (simp add: resolve_config_object example_world_def)
  have g0: "get_config ?H (0 + length example_heap) =
      Inr (reloc_config (length example_heap) example_config)"
    using l0 lookup_twin [of example_heap 0] by (simp add: get_config_def)
  from init_storage_Inr [OF i] rc g0
  have g: "get_config (objs w') (self_config ad) =
      Inr (reloc_config (length example_heap) example_config)"
    by auto
  have n: "n_dim (reloc_config (length example_heap) example_config) = VInt 128"
    and nm: "collection_name (reloc_config (length example_heap) example_config) = VStr ''docs''"
    by (simp_all add: reloc_config_def example_config_def)
  from provisioning_fields [of example_env example_world "()" "VRef 0" "[]" ad w'
      "reloc_config (length example_heap) example_config"] i g n nm
  obtain c1 c2 where "self_collection ad = Some c1" "self_offset2id_collection ad = Some c2"
    "name_c c1 = VStr ''docs''" "name_c c2 = VStr ''docs_offset2id''"
    "length (fields_s (schema_c c1)) = 3"
    "map name (fields_s (schema_c c1)) = [''document_id'', ''embedding'', ''serialized'']"
    "length (fields_s (schema_c c2)) = 3"
    "map name (fields_s (schema_c c2)) = [''offset'', ''document_id'', ''dummy_vector'']"
    by auto
  with i g n show ?thesis
    by (intro exI [of _ ad] exI [of _ w'] exI [of _ c1] exI [of _ c2]
        exI [of _ "reloc_config (length example_heap) example_config"]) simp
qed

subsection \<open>The name of a subindex\<close>

lemma getitem_after_setitem:
  "lookup h a = Some (Dict kvs) \<Longrightarrow>
   getitem (h[a := Dict (AList.update k v kvs)]) a k = Inr v"
  by (auto simp: getitem_def lookup_def update_conv' split: if_splits)

lemma ensure_unique_config_no_name:
  assumes "lookup h config_subindex = Some (Dict ks)" and "map_of ks ''collection_name'' = None"
    and "lookup h config_joined = Some (Dict kj)"
    and "map_of kj ''collection_name'' = Some (VStr nj)"
  shows "ensure_unique_config h config_root config_subindex config_joined subindex_name =
     (Inr config_joined,
      h[config_joined := Dict (AList.update ''collection_name''
           (VStr (nj @ ''_subindex_'' @ subindex_name)) kj)])"
  using assms
  by (simp add: ensure_unique_config_def contains_def getitem_def add_str_def setitem_def)

text \<open>
  Claim C3 says that, when the subindex configuration has no collection name, the joined
  configuration gets the name of the root followed by \<^verbatim>\<open>_subindex_\<close> and the subindex
  identifier. Line 129 reads the name of the joined configuration, not of the root: with
  a root named \<^verbatim>\<open>R\<close>, a joined configuration named \<^verbatim>\<open>J\<close> and the identifier \<^verbatim>\<open>S\<close>, the
  result is \<^verbatim>\<open>J_subindex_S\<close> and not \<^verbatim>\<open>R_subindex_S\<close>.
\<close>

theorem ensure_unique_config_counterexample:
  "contains example_subindex_heap 1 ''collection_name'' = Inr False
   \<and> getitem example_subindex_heap 0 ''collection_name'' = Inr (VStr ''R'')
   \<and> ensure_unique_config example_subindex_heap 0 1 2 ''S'' =
       (Inr 2,
        [Dict [(''collection_name'', VStr ''R'')], Dict [],
         Dict [(''collection_name'', VStr ''J_subindex_S'')]])
   \<and> getitem
       [Dict [(''collection_name'', VStr ''R'')], Dict [],
        Dict [(''collection_name'', VStr ''J_subindex_S'')]]
       2 ''collection_name'' \<noteq> Inr (VStr ''R_subindex_S'')"
  by (simp add: ensure_unique_config_def contains_def getitem_def add_str_def setitem_def
      lookup_def example_subindex_heap_def)

text \<open>
  Claim C3, amended. When the subindex configuration has no key \<^verbatim>\<open>collection_name\<close> and
  the joined configuration holds a string under that key, the joined configuration is
  returned with that string followed by \<^verbatim>\<open>_subindex_\<close> and the subindex identifier as its
  collection name, and no other object is changed; this is the root's name followed by the
  same suffix whenever the joined configuration holds the root's name. When the subindex
  configuration has the key, the joined configuration is returned and nothing is changed.
\<close>

theorem ensure_unique_config_appends_to_joined:
  "(lookup h config_subindex = Some (Dict ks) \<and> map_of ks ''collection_name'' = None
      \<and> lookup h config_joined = Some (Dict kj)
      \<and> map_of kj ''collection_name'' = Some (VStr nj) \<longrightarrow>
      (\<exists>h'. ensure_unique_config h config_root config_subindex config_joined subindex_name =
              (Inr config_joined, h')
            \<and> getitem h' config_joined ''collection_name'' =
                Inr (VStr (nj @ ''_subindex_'' @ subindex_name))
            \<and> (\<forall>a. a \<noteq> config_joined \<longrightarrow> lookup h' a = lookup h a)))
   \<and> (lookup h config_subindex = Some (Dict ks) \<and> map_of ks ''collection_name'' = None
      \<and> getitem h config_root ''collection_name'' = Inr (VStr nr)
      \<and> getitem h config_joined ''collection_name'' = Inr (VStr nr) \<longrightarrow>
      (\<exists>h'. ensure_unique_config h config_root config_subindex config_joined subindex_name =
              (Inr config_joined, h')
            \<and> getitem h' config_joined ''collection_name'' =
                Inr (VStr (nr @ ''_subindex_'' @ subindex_name))))
   \<and> (lookup h config_subindex = Some (Dict ks) \<and> map_of ks ''collection_name'' \<noteq> None \<longrightarrow>
        ensure_unique_config h config_root config_subindex config_joined subindex_name =
          (Inr config_joined, h))"
proof (intro conjI impI)
  assume a: "lookup h config_subindex = Some (Dict ks) \<and> map_of ks ''collection_name'' = None
      \<and> lookup h config_joined = Some (Dict kj)
      \<and> map_of kj ''collection_name'' = Some (VStr nj)"
  let ?h' = "h[config_joined := Dict (AList.update ''collection_name''
           (VStr (nj @ ''_subindex_'' @ subindex_name)) kj)]"
  from a have "ensure_unique_config h config_root config_subindex config_joined subindex_name =
     (Inr config_joined, ?h')"
    by (simp add: ensure_unique_config_no_name)
  moreover from a have "getitem ?h' config_joined ''collection_name'' =
      Inr (VStr (nj @ ''_subindex_'' @ subindex_name))"
    by (simp add: getitem_after_setitem)
  moreover have "\<forall>a. a \<noteq> config_joined \<longrightarrow> lookup ?h' a = lookup h a"
    by (simp add: lookup_def)
  ultimately show "\<exists>h'.
      ensure_unique_config h config_root config_subindex config_joined subindex_name =
        (Inr config_joined, h')
      \<and> getitem h' config_joined ''collection_name'' =
          Inr (VStr (nj @ ''_subindex_'' @ subindex_name))
      \<and> (\<forall>a. a \<noteq> config_joined \<longrightarrow> lookup h' a = lookup h a)"
    by blast
next
  assume a: "lookup h config_subindex = Some (Dict ks) \<and> map_of ks ''collection_name'' = None
      \<and> getitem h config_root ''collection_name'' = Inr (VStr nr)
      \<and> getitem h config_joined ''collection_name'' = Inr (VStr nr)"
  then obtain kj where kj: "lookup h config_joined = Some (Dict kj)"
    and nm: "map_of kj ''collection_name'' = Some (VStr nr)"
    by (auto simp: getitem_def split: option.splits pyobj.splits)
  let ?h' = "h[config_joined := Dict (AList.update ''collection_name''
           (VStr (nr @ ''_subindex_'' @ subindex_name)) kj)]"
  from a kj nm
  have "ensure_unique_config h config_root config_subindex config_joined subindex_name =
     (Inr config_joined, ?h')"
    by (simp add: ensure_unique_config_no_name)
  moreover from kj have "getitem ?h' config_joined ''collection_name'' =
      Inr (VStr (nr @ ''_subindex_'' @ subindex_name))"
    by (simp add: getitem_after_setitem)
  ultimately show "\<exists>h'.
      ensure_unique_config h config_root config_subindex config_joined subindex_name =
        (Inr config_joined, h')
      \<and> getitem h' config_joined ''collection_name'' =
          Inr (VStr (nr @ ''_subindex_'' @ subindex_name))"
    by blast
next
  assume "lookup h config_subindex = Some (Dict ks) \<and> map_of ks ''collection_name'' \<noteq> None"
  then show "ensure_unique_config h config_root config_subindex config_joined subindex_name =
          (Inr config_joined, h)"
    by (auto simp: ensure_unique_config_def contains_def)
qed

theorem ensure_unique_config_appends_to_joined_witness:
  "lookup example_subindex_heap 1 = Some (Dict [])
   \<and> lookup example_subindex_heap 2 = Some (Dict [(''collection_name'', VStr ''J'')])
   \<and> (\<exists>h'. ensure_unique_config example_subindex_heap 0 1 2 ''S'' = (Inr 2, h')
         \<and> getitem h' 2 ''collection_name'' = Inr (VStr ''J_subindex_S'')
         \<and> lookup h' 0 = lookup example_subindex_heap 0)
   \<and> getitem example_subindex_heap 0 ''collection_name'' = Inr (VStr ''R'')
   \<and> (\<exists>h'. ensure_unique_config example_subindex_heap 0 1 0 ''S'' = (Inr 0, h')
         \<and> getitem h' 0 ''collection_name'' = Inr (VStr ''R_subindex_S''))
   \<and> ensure_unique_config example_subindex_heap 0 2 0 ''S'' = (Inr 0, example_subindex_heap)"
proof -
  have l1: "lookup example_subindex_heap 1 = Some (Dict [])"
    and l2: "lookup example_subindex_heap 2 = Some (Dict [(''collection_name'', VStr ''J'')])"
    and g0: "getitem example_subindex_heap 0 ''collection_name'' = Inr (VStr ''R'')"
    by (simp_all add: lookup_def getitem_def example_subindex_heap_def)
  note t = ensure_unique_config_appends_to_joined [where h = example_subindex_heap
      and config_root = 0 and subindex_name = "''S''"]
  from t [of 1 "[]" 2 "[(''collection_name'', VStr ''J'')]" "''J''" "''R''"] l1 l2
  have a: "\<exists>h'. ensure_unique_config example_subindex_heap 0 1 2 ''S'' = (Inr 2, h')
         \<and> getitem h' 2 ''collection_name'' = Inr (VStr ''J_subindex_S'')
         \<and> lookup h' 0 = lookup example_subindex_heap 0"
    by force
  from t [of 1 "[]" 0 "[]" "''J''" "''R''"] l1 g0
  have b: "\<exists>h'. ensure_unique_config example_subindex_heap 0 1 0 ''S'' = (Inr 0, h')
         \<and> getitem h' 0 ''collection_name'' = Inr (VStr ''R_subindex_S'')"
    by force
  from t [of 2 "[(''collection_name'', VStr ''J'')]" 0 "[]" "''J''" "''R''"] l2
  have c: "ensure_unique_config example_subindex_heap 0 2 0 ''S'' =
      (Inr 0, example_subindex_heap)"
    by force
  from l1 l2 a g0 b c show ?thesis by blast
qed

end
